theory Spec2Isabelle
  imports Main "HOL-Library.Word" "HOL-Library.AList"
begin

section \<open>Data model of the exploration engine (collectData.go)\<close>

text \<open>
  The engine is a sequential Go program working on three pieces of mutable state: the
  SQLite store (tables \<open>items\<close> and \<open>combinations\<close>), the package-level map
  \<open>localItemsCache\<close>, and the outside world (the combine endpoint, the random number
  generator, the clock, the log). Every function below takes the state of all of them, a
  \<open>world\<close>, and returns the new one together with what the Go function returns.
\<close>

record ApiResponse =
  Result :: string
  Emoji :: string
  IsNew :: bool

text \<open>
  A row of \<open>items\<close> is \<open>(name, (emoji, isNew))\<close>; a row of \<open>combinations\<close> is
  \<open>(id, firstItem, secondItem, resultItem)\<close>. Rows are kept in insertion order.
\<close>

type_synonym item_row = "string \<times> (string \<times> bool)"
type_synonym combination_row = "nat \<times> string \<times> string \<times> string"

datatype go_error =
    ErrStoreIO
  | ErrNoSuchTable
  | ErrTableExists
  | ErrUniqueConstraint
  | ErrNewRequest
  | ErrTransport
  | ErrReadBody
  | ErrUnmarshal
  | ErrSyntax
  | ErrRange
  | ErrNotEnoughItems
  | ErrSqlOpen
  | ErrWriteFile

datatype panic_value =
    PanicStatusCode nat
  | PanicIntnArgument
  | PanicIndexOutOfRange

text \<open>
  \<open>logrus.Fatal\<close> writes its line and calls \<open>os.Exit(1)\<close>; a \<open>panic\<close> that nobody
  recovers unwinds the stack and kills the process as well. Both end the run where they
  happen: the world returned with \<open>Crashed\<close> is the one the process leaves behind.
\<close>

datatype crash = Exit | Panic panic_value

datatype 'a outcome = Return 'a | Crashed crash

datatype level = DebugLevel | InfoLevel | ErrorLevel | FatalLevel

datatype log_arg = ArgStr string | ArgErr go_error | ArgInt int | ArgBool bool

datatype db_write =
    CreatedItemsTable
  | CreatedCombinationsTable
  | WroteItem string string bool
  | WroteCombination string string string

text \<open>
  What the endpoint answers to one request: \<open>http.NewRequest\<close> or \<open>client.Do\<close> may
  fail, otherwise there is a response with a status code, the value of its
  \<open>Retry-After\<close> header (\<open>Header.Get\<close> gives the empty string when the header is
  absent) and a body, which \<open>io.ReadAll\<close> and \<open>json.Unmarshal\<close> either turn into an
  \<open>ApiResponse\<close> or fail on.
\<close>

datatype body_outcome = ReadFails | UnmarshalFails | Decoded ApiResponse

datatype http_outcome =
    NewRequestFails
  | DoFails
  | Response nat string body_outcome

text \<open>
  What \<open>os.Stat\<close> says about the store's file: it is there, or the call fails with
  an error for which \<open>os.IsNotExist\<close> holds, or it fails with another error (the
  directory cannot be read, say).
\<close>

datatype stat_outcome = StatOk | StatErrNotExist | StatErrOther

record world =
  itemsTable :: "item_row list option"
  combinationsTable :: "combination_row list option"
  localItemsCache :: "(string \<times> string) list"
  logLines :: "(level \<times> log_arg list) list"
  writes :: "db_write list"
  requests :: "(string \<times> string) list"
  sleeps :: "64 word list"
  frames :: nat
  maxFrames :: nat
  dbFault :: "nat \<Rightarrow> bool"
  dbTick :: nat
  httpServer :: "nat \<Rightarrow> string \<Rightarrow> string \<Rightarrow> http_outcome"
  randSource :: "nat \<Rightarrow> nat"
  randTick :: nat
  mapSeed :: "nat \<Rightarrow> nat"
  mapTick :: nat
  statItemsDb :: stat_outcome
  sqlOpenFails :: bool

text \<open>
  \<^item> \<open>itemsTable\<close>, \<open>combinationsTable\<close>: the two tables; \<open>None\<close> while the table has
    not been created.
  \<^item> \<open>localItemsCache\<close>: the Go map, as an association list with one pair per key.
  \<^item> \<open>logLines\<close>: the lines handed to logrus (the level is set to Debug, so all are kept).
  \<^item> \<open>writes\<close>: the SQL statements that changed a table, in the order they ran.
  \<^item> \<open>requests\<close>: the \<open>(first, second)\<close> of every request handed to \<open>client.Do\<close>.
  \<^item> \<open>sleeps\<close>: the argument of every \<open>time.Sleep\<close>, a \<open>time.Duration\<close>: an int64
    of nanoseconds. \<open>time.Sleep\<close> returns at once when it is zero or negative.
  \<^item> \<open>frames\<close>, \<open>maxFrames\<close>: the number of activations of \<open>callApi\<close> that have been
    entered and have not returned yet, and the largest value it has had.
  \<^item> \<open>dbFault\<close>, \<open>dbTick\<close>: whether the \<open>n\<close>-th statement sent to the store fails for a
    reason of its own (I/O, lock), and the number of statements sent so far.
  \<^item> \<open>httpServer\<close>: the endpoint's answer to the \<open>n\<close>-th request, for the pair asked.
  \<^item> \<open>randSource\<close>, \<open>randTick\<close>: the values of math/rand, and how many were drawn.
  \<^item> \<open>mapSeed\<close>, \<open>mapTick\<close>: the runtime's choices when it iterates over a map.
  \<^item> \<open>statItemsDb\<close>: the outcome of \<open>os.Stat\<close> on the store's file.
  \<^item> \<open>sqlOpenFails\<close>: whether \<open>sql.Open\<close> returns an error.
\<close>

definition logrus :: "level \<Rightarrow> log_arg list \<Rightarrow> world \<Rightarrow> world" where
  "logrus lvl args w = w\<lparr>logLines := logLines w @ [(lvl, args)]\<rparr>"

definition timeSleep :: "64 word \<Rightarrow> world \<Rightarrow> world" where
  "timeSleep d w = w\<lparr>sleeps := sleeps w @ [d]\<rparr>"

section \<open>The store\<close>

text \<open>
  Each definition is one SQL statement of the source, run by \<open>db.Exec\<close> or
  \<open>db.QueryRow\<close>. The statement fails when the store faults, when its table does not
  exist, or on the constraint it can violate; a failed statement changes no table.
  SQLite does not enforce \<open>FOREIGN KEY\<close> clauses unless the connection turns
  \<open>foreign_keys\<close> on, and the source opens the file with the default settings, so
  inserting a combination checks \<open>UNIQUE(firstItem, secondItem)\<close> only.
\<close>

definition sendStatement :: "world \<Rightarrow> bool \<times> world" where
  "sendStatement w = (dbFault w (dbTick w), w\<lparr>dbTick := Suc (dbTick w)\<rparr>)"

definition execUpsertItem :: "string \<Rightarrow> string \<Rightarrow> bool \<Rightarrow> world \<Rightarrow> go_error option \<times> world" where
  "execUpsertItem name emoji isNew w =
     (let (fault, w') = sendStatement w in
      if fault then (Some ErrStoreIO, w')
      else case itemsTable w' of
             None \<Rightarrow> (Some ErrNoSuchTable, w')
           | Some rows \<Rightarrow>
               (None, w'\<lparr>itemsTable := Some (AList.update name (emoji, isNew) rows),
                          writes := writes w' @ [WroteItem name emoji isNew]\<rparr>))"

definition execInsertItem :: "string \<Rightarrow> string \<Rightarrow> bool \<Rightarrow> world \<Rightarrow> go_error option \<times> world" where
  "execInsertItem name emoji isNew w =
     (let (fault, w') = sendStatement w in
      if fault then (Some ErrStoreIO, w')
      else case itemsTable w' of
             None \<Rightarrow> (Some ErrNoSuchTable, w')
           | Some rows \<Rightarrow>
               if name \<in> set (map fst rows) then (Some ErrUniqueConstraint, w')
               else (None, w'\<lparr>itemsTable := Some (rows @ [(name, (emoji, isNew))]),
                               writes := writes w' @ [WroteItem name emoji isNew]\<rparr>))"

definition pairOf :: "combination_row \<Rightarrow> string \<times> string" where
  "pairOf c = (case c of (i, f, s, r) \<Rightarrow> (f, s))"

definition resultOf :: "combination_row \<Rightarrow> string" where
  "resultOf c = (case c of (i, f, s, r) \<Rightarrow> r)"

definition nextId :: "combination_row list \<Rightarrow> nat" where
  "nextId rows = Suc (fold max (map fst rows) 0)"

definition execInsertCombination :: "string \<Rightarrow> string \<Rightarrow> string \<Rightarrow> world \<Rightarrow> go_error option \<times> world" where
  "execInsertCombination firstItem secondItem resultItem w =
     (let (fault, w') = sendStatement w in
      if fault then (Some ErrStoreIO, w')
      else case combinationsTable w' of
             None \<Rightarrow> (Some ErrNoSuchTable, w')
           | Some rows \<Rightarrow>
               if (firstItem, secondItem) \<in> set (map pairOf rows) then (Some ErrUniqueConstraint, w')
               else (None, w'\<lparr>combinationsTable :=
                                 Some (rows @ [(nextId rows, firstItem, secondItem, resultItem)]),
                               writes := writes w' @ [WroteCombination firstItem secondItem resultItem]\<rparr>))"

definition queryCountCombinations :: "string \<Rightarrow> string \<Rightarrow> world \<Rightarrow> (go_error + nat) \<times> world" where
  "queryCountCombinations firstItem secondItem w =
     (let (fault, w') = sendStatement w in
      if fault then (Inl ErrStoreIO, w')
      else case combinationsTable w' of
             None \<Rightarrow> (Inl ErrNoSuchTable, w')
           | Some rows \<Rightarrow> (Inr (length (filter (\<lambda>c. pairOf c = (firstItem, secondItem)) rows)), w'))"

section \<open>insertOrUpdateItem, insertCombination, combinationExists\<close>

definition insertOrUpdateItem :: "string \<Rightarrow> string \<Rightarrow> bool \<Rightarrow> world \<Rightarrow> unit outcome \<times> world" where
  "insertOrUpdateItem name emoji isNew w =
     (let w1 = logrus DebugLevel
                 [ArgStr ''Inserting or updating item: %s, %s, %t'', ArgStr name, ArgStr emoji, ArgBool isNew] w;
          w2 = w1\<lparr>localItemsCache := AList.update name emoji (localItemsCache w1)\<rparr>;
          (err, w3) = execUpsertItem name emoji isNew w2
      in case err of
           Some e \<Rightarrow> (Crashed Exit, logrus FatalLevel [ArgStr ''Failed to insert or update item: '', ArgErr e] w3)
         | None \<Rightarrow> (Return (), w3))"

definition insertCombination :: "string \<Rightarrow> string \<Rightarrow> string \<Rightarrow> world \<Rightarrow> unit outcome \<times> world" where
  "insertCombination firstItem secondItem resultItem w =
     (let w1 = logrus DebugLevel
                 [ArgStr ''Inserting combination: %s, %s, %s'', ArgStr firstItem, ArgStr secondItem, ArgStr resultItem] w;
          (err, w2) = execInsertCombination firstItem secondItem resultItem w1
      in case err of
           Some e \<Rightarrow> (Crashed Exit, logrus FatalLevel [ArgStr ''Failed to insert combination: '', ArgErr e] w2)
         | None \<Rightarrow> (Return (), w2))"

definition combinationExists :: "string \<Rightarrow> string \<Rightarrow> world \<Rightarrow> (go_error + bool) \<times> world" where
  "combinationExists firstItem secondItem w =
     (let (r, w') = queryCountCombinations firstItem secondItem w in
      case r of
        Inl err \<Rightarrow> (Inl err, w')
      | Inr count \<Rightarrow> (Inr (count > 0), w'))"

section \<open>The Combine Client: callApi\<close>

text \<open>
  \<open>strconv.Atoi\<close> on a 64-bit platform: an optional sign, then at least one decimal
  digit and nothing else; a value outside the int64 range is an error as well.
\<close>

definition digitValue :: "char \<Rightarrow> nat option" where
  "digitValue c =
     (let k = (of_char c :: nat) in if 48 \<le> k \<and> k \<le> 57 then Some (k - 48) else None)"

fun parseDigits :: "nat \<Rightarrow> string \<Rightarrow> nat option" where
  "parseDigits n [] = Some n"
| "parseDigits n (c # cs) =
     (case digitValue c of None \<Rightarrow> None | Some d \<Rightarrow> parseDigits (n * 10 + d) cs)"

definition Atoi :: "string \<Rightarrow> go_error + int" where
  "Atoi s =
     (case s of
        [] \<Rightarrow> Inl ErrSyntax
      | c # cs \<Rightarrow>
          (let digits = (if c = CHR ''-'' \<or> c = CHR ''+'' then cs else s) in
           if digits = [] then Inl ErrSyntax
           else case parseDigits 0 digits of
                  None \<Rightarrow> Inl ErrSyntax
                | Some n \<Rightarrow>
                    (let v = (if c = CHR ''-'' then - int n else int n) in
                     if - (2 ^ 63) \<le> v \<and> v < 2 ^ 63 then Inr v else Inl ErrRange)))"

text \<open>
  \<open>time.Second\<close> and \<open>time.Millisecond\<close> in nanoseconds. A \<open>time.Duration\<close> is an
  int64, and Go's \<open>+\<close> and \<open>*\<close> on it wrap around, as they do on \<open>64 word\<close>.
\<close>

definition timeSecond :: "64 word" where
  "timeSecond = 1000000000"

definition timeMillisecond :: "64 word" where
  "timeMillisecond = 1000000"

definition enterFrame :: "world \<Rightarrow> world" where
  "enterFrame w = w\<lparr>frames := Suc (frames w), maxFrames := max (maxFrames w) (Suc (frames w))\<rparr>"

definition leaveFrame :: "world \<Rightarrow> world" where
  "leaveFrame w = w\<lparr>frames := frames w - 1\<rparr>"

definition clientDo :: "string \<Rightarrow> string \<Rightarrow> world \<Rightarrow> world" where
  "clientDo first second w = w\<lparr>requests := requests w @ [(first, second)]\<rparr>"

text \<open>
  \<open>callApi\<close> calls itself on status 429, from inside its own activation: the answer of
  the inner call is what the outer one returns, after which the outer activation (and its
  deferred \<open>resp.Body.Close()\<close>) ends. Go does not turn such a call into a jump. An
  endpoint that answers 429 for ever makes the function run for ever: the value \<open>None\<close>.
\<close>

partial_function (option) callApi ::
  "string \<Rightarrow> string \<Rightarrow> world \<Rightarrow> ((go_error + ApiResponse) outcome \<times> world) option" where
  "callApi first second w =
     (let w0 = enterFrame w in
      case httpServer w0 (length (requests w0)) first second of
        NewRequestFails \<Rightarrow> Some (Return (Inl ErrNewRequest), leaveFrame w0)
      | DoFails \<Rightarrow>
          (let w1 = logrus DebugLevel [ArgStr ''Calling API with URL: '', ArgStr first, ArgStr second] w0;
               w2 = clientDo first second w1
           in Some (Return (Inl ErrTransport), leaveFrame w2))
      | Response statusCode retryAfterHeader body \<Rightarrow>
          (let w1 = logrus DebugLevel [ArgStr ''Calling API with URL: '', ArgStr first, ArgStr second] w0;
               w2 = clientDo first second w1
           in if statusCode = 429 then
                (let retryAfter = (case Atoi retryAfterHeader of Inl err \<Rightarrow> 60 | Inr n \<Rightarrow> n);
                     w3 = timeSleep (word_of_int (retryAfter + 1) * timeSecond) w2
                 in Option.bind (callApi first second w3) (\<lambda>(r, w4). Some (r, leaveFrame w4)))
              else if statusCode \<ge> 400 then Some (Crashed (Panic (PanicStatusCode statusCode)), w2)
              else case body of
                     ReadFails \<Rightarrow> Some (Return (Inl ErrReadBody), leaveFrame w2)
                   | UnmarshalFails \<Rightarrow> Some (Return (Inl ErrUnmarshal), leaveFrame w2)
                   | Decoded response \<Rightarrow> Some (Return (Inr response), leaveFrame w2)))"

declare callApi.simps [code]

section \<open>combineElements\<close>

definition combineElements :: "string \<Rightarrow> string \<Rightarrow> world \<Rightarrow> (unit outcome \<times> world) option" where
  "combineElements first second w =
     (case callApi first second w of
        None \<Rightarrow> None
      | Some (Crashed c, w1) \<Rightarrow> Some (Crashed c, w1)
      | Some (Return (Inl err), w1) \<Rightarrow>
          Some (Crashed Exit, logrus FatalLevel [ArgStr ''Failed to call API: '', ArgErr err] w1)
      | Some (Return (Inr response), w1) \<Rightarrow>
          (case insertOrUpdateItem (Result response) (Emoji response) (IsNew response) w1 of
             (Crashed c, w2) \<Rightarrow> Some (Crashed c, w2)
           | (Return u, w2) \<Rightarrow> Some (insertCombination first second (Result response) w2)))"

section \<open>The Pair Selector: getRandomItems\<close>

text \<open>
  Go iterates over a map in an order of the runtime's choosing, a new one each time.
  \<open>iterationOrder\<close> lets \<open>mapSeed\<close> pick the next key among those not yet visited, so
  every order can come out. The keys of the map are the keys of the association list,
  each one once.
\<close>

primrec iterationOrder :: "nat \<Rightarrow> (nat \<Rightarrow> nat) \<Rightarrow> nat \<Rightarrow> 'a list \<Rightarrow> 'a list" where
  "iterationOrder 0 seed k xs = []"
| "iterationOrder (Suc n) seed k xs =
     (let i = seed k mod length xs in
      xs ! i # iterationOrder n seed (Suc k) (take i xs @ drop (Suc i) xs))"

definition cacheKeys :: "world \<Rightarrow> string list" where
  "cacheKeys w = remdups (map fst (localItemsCache w))"

definition rangeKeys :: "world \<Rightarrow> string list \<times> world" where
  "rangeKeys w =
     (let keys = cacheKeys w in
      (iterationOrder (length keys) (mapSeed w) (mapTick w) keys,
       w\<lparr>mapTick := mapTick w + length keys\<rparr>))"

text \<open>\<open>rand.Intn(n)\<close> panics unless \<open>0 < n\<close>, and returns a value below \<open>n\<close>.\<close>

definition randIntn :: "nat \<Rightarrow> world \<Rightarrow> nat outcome \<times> world" where
  "randIntn n w =
     (if n = 0 then (Crashed (Panic PanicIntnArgument), w)
      else (Return (randSource w (randTick w) mod n), w\<lparr>randTick := Suc (randTick w)\<rparr>))"

text \<open>The loop \<open>for secondIndex == firstIndex\<close>; it has no bound of its own.\<close>

partial_function (option) drawSecondIndex ::
  "nat \<Rightarrow> nat \<Rightarrow> nat \<Rightarrow> world \<Rightarrow> (nat outcome \<times> world) option" where
  "drawSecondIndex n firstIndex secondIndex w =
     (if secondIndex = firstIndex then
        (case randIntn n w of
           (Crashed c, w') \<Rightarrow> Some (Crashed c, w')
         | (Return i, w') \<Rightarrow> drawSecondIndex n firstIndex i w')
      else Some (Return secondIndex, w))"

declare drawSecondIndex.simps [code]

definition getRandomItems :: "world \<Rightarrow> ((go_error + string \<times> string) outcome \<times> world) option" where
  "getRandomItems w =
     (let (items, w1) = rangeKeys w in
      if length items < 2 then Some (Return (Inl ErrNotEnoughItems), w1)
      else case randIntn (length items) w1 of
             (Crashed c, w2) \<Rightarrow> Some (Crashed c, w2)
           | (Return firstIndex, w2) \<Rightarrow>
               (case drawSecondIndex (length items) firstIndex firstIndex w2 of
                  None \<Rightarrow> None
                | Some (Crashed c, w3) \<Rightarrow> Some (Crashed c, w3)
                | Some (Return secondIndex, w3) \<Rightarrow>
                    if firstIndex < length items \<and> secondIndex < length items
                    then Some (Return (Inr (items ! firstIndex, items ! secondIndex)), w3)
                    else Some (Crashed (Panic PanicIndexOutOfRange), w3)))"

section \<open>The Exploration Loop: exploreCombinations\<close>

text \<open>
  The function has two ways out: the loop condition becoming false (\<open>Exhausted\<close>) and
  the two \<open>return\<close> statements inside the loop (\<open>Aborted\<close>). The model returns which one
  was taken, with the values of \<open>createdCombinations\<close> and \<open>attempts\<close> at that moment.
  Both counters are Go ints; they stay below the two bounds, so they never wrap.
\<close>

datatype way_out = Exhausted | Aborted

text \<open>Lines 256 to 259: \<open>if !exists { combineElements(...); createdCombinations++ }\<close>.\<close>

definition combineIfNew ::
  "bool \<Rightarrow> string \<Rightarrow> string \<Rightarrow> int \<Rightarrow> world \<Rightarrow> (int outcome \<times> world) option" where
  "combineIfNew exists firstItem secondItem createdCombinations w =
     (if \<not> exists then
        (case combineElements firstItem secondItem w of
           None \<Rightarrow> None
         | Some (Crashed c, w') \<Rightarrow> Some (Crashed c, w')
         | Some (Return u, w') \<Rightarrow> Some (Return (createdCombinations + 1), w'))
      else Some (Return createdCombinations, w))"

function exploreLoop ::
  "int \<Rightarrow> int \<Rightarrow> int \<Rightarrow> int \<Rightarrow> world \<Rightarrow> ((way_out \<times> int \<times> int) outcome \<times> world) option" where
  "exploreLoop maxCombinations maxAttempts createdCombinations attempts w =
     (if createdCombinations < maxCombinations \<and> attempts < maxAttempts then
        (case getRandomItems w of
           None \<Rightarrow> None
         | Some (Crashed c, w1) \<Rightarrow> Some (Crashed c, w1)
         | Some (Return (Inl err), w1) \<Rightarrow>
             Some (Return (Aborted, createdCombinations, attempts),
                   logrus ErrorLevel [ArgStr ''Error getting random items: '', ArgErr err] w1)
         | Some (Return (Inr (firstItem, secondItem)), w1) \<Rightarrow>
             (case combinationExists firstItem secondItem w1 of
                (Inl err, w2) \<Rightarrow>
                  Some (Return (Aborted, createdCombinations, attempts),
                        logrus ErrorLevel [ArgStr ''Error checking if combination exists: '', ArgErr err] w2)
              | (Inr exists, w2) \<Rightarrow>
                  (case combineIfNew exists firstItem secondItem createdCombinations w2 of
                     None \<Rightarrow> None
                   | Some (Crashed c, w3) \<Rightarrow> Some (Crashed c, w3)
                   | Some (Return created, w3) \<Rightarrow>
                       exploreLoop maxCombinations maxAttempts created (attempts + 1)
                         (timeSleep (timeMillisecond * 50) w3))))
      else Some (Return (Exhausted, createdCombinations, attempts),
                 logrus InfoLevel
                   [ArgStr ''Finished creating combinations. Total created: '', ArgInt createdCombinations,
                    ArgStr '', Total attempts: '', ArgInt attempts] w))"
  by pat_completeness auto
termination
  by (relation "measure (\<lambda>(maxCombinations, maxAttempts, createdCombinations, attempts, w).
                  nat (maxAttempts - attempts))") auto

declare exploreLoop.simps [simp del]

definition exploreCombinations ::
  "int \<Rightarrow> int \<Rightarrow> world \<Rightarrow> ((way_out \<times> int \<times> int) outcome \<times> world) option" where
  "exploreCombinations maxCombinations maxAttempts w = exploreLoop maxCombinations maxAttempts 0 0 w"

section \<open>Start-up: initializeDatabase\<close>

definition osIsNotExist :: "stat_outcome \<Rightarrow> bool" where
  "osIsNotExist st = (st = StatErrNotExist)"

definition checkDatabaseExists :: "world \<Rightarrow> bool" where
  "checkDatabaseExists w =
     (if statItemsDb w \<noteq> StatOk then \<not> osIsNotExist (statItemsDb w) else True)"

definition execCreateItemsTable :: "world \<Rightarrow> go_error option \<times> world" where
  "execCreateItemsTable w =
     (let (fault, w') = sendStatement w in
      if fault then (Some ErrStoreIO, w')
      else case itemsTable w' of
             Some rows \<Rightarrow> (Some ErrTableExists, w')
           | None \<Rightarrow> (None, w'\<lparr>itemsTable := Some [], writes := writes w' @ [CreatedItemsTable]\<rparr>))"

definition execCreateCombinationsTable :: "world \<Rightarrow> go_error option \<times> world" where
  "execCreateCombinationsTable w =
     (let (fault, w') = sendStatement w in
      if fault then (Some ErrStoreIO, w')
      else case combinationsTable w' of
             Some rows \<Rightarrow> (Some ErrTableExists, w')
           | None \<Rightarrow> (None, w'\<lparr>combinationsTable := Some [],
                                 writes := writes w' @ [CreatedCombinationsTable]\<rparr>))"

definition createTables :: "world \<Rightarrow> unit outcome \<times> world" where
  "createTables w =
     (let (err, w1) = execCreateItemsTable w in
      case err of
        Some e \<Rightarrow> (Crashed Exit, logrus FatalLevel [ArgStr ''Failed to create items table: '', ArgErr e] w1)
      | None \<Rightarrow>
          (let w2 = logrus InfoLevel [ArgStr ''Created items table''] w1;
               (err', w3) = execCreateCombinationsTable w2
           in case err' of
                Some e \<Rightarrow>
                  (Crashed Exit, logrus FatalLevel [ArgStr ''Failed to create combinations table: '', ArgErr e] w3)
              | None \<Rightarrow> (Return (), logrus InfoLevel [ArgStr ''Created combinations table''] w3)))"

text \<open>The four seed rows; the glyphs are the bytes of the string literals in the source.\<close>

definition bytes :: "nat list \<Rightarrow> string" where
  "bytes ns = map char_of ns"

definition initialItems :: "(string \<times> string) list" where
  "initialItems =
     [(''Water'', bytes [0xC3, 0xB0, 0xC5, 0xB8, 0xE2, 0x80, 0x99, 0xC2, 0xA7]),
      (''Fire'', bytes [0xC3, 0xB0, 0xC5, 0xB8, 0xE2, 0x80, 0x9D, 0xC2, 0xA5]),
      (''Wind'', bytes [0xC3, 0xB0, 0xC5, 0xB8, 0xC5, 0x92, 0xC2, 0xAC, 0xC3, 0xAF, 0xC2, 0xB8]),
      (''Earth'', bytes [0xC3, 0xB0, 0xC5, 0xB8, 0xC5, 0x92])]"

fun insertEach :: "(string \<times> string) list \<Rightarrow> world \<Rightarrow> unit outcome \<times> world" where
  "insertEach [] w = (Return (), w)"
| "insertEach (item # rest) w =
     (case execInsertItem (fst item) (snd item) False w of
        (Some e, w') \<Rightarrow>
          (Crashed Exit, logrus FatalLevel [ArgStr ''Failed to insert initial items: '', ArgErr e] w')
      | (None, w') \<Rightarrow> insertEach rest w')"

definition insertInitialItems :: "world \<Rightarrow> unit outcome \<times> world" where
  "insertInitialItems w =
     (case insertEach initialItems w of
        (Crashed c, w') \<Rightarrow> (Crashed c, w')
      | (Return u, w') \<Rightarrow> (Return (), logrus InfoLevel [ArgStr ''Inserted initial items''] w'))"

definition initializeDatabase :: "world \<Rightarrow> unit outcome \<times> world" where
  "initializeDatabase w =
     (let dbExists = checkDatabaseExists w;
          w1 = logrus DebugLevel [ArgStr ''Database exists: '', ArgBool dbExists] w
      in if sqlOpenFails w1
         then (Crashed Exit, logrus FatalLevel [ArgStr ''Failed to open database: '', ArgErr ErrSqlOpen] w1)
         else if \<not> dbExists then
           (case createTables w1 of
              (Crashed c, w2) \<Rightarrow> (Crashed c, w2)
            | (Return u, w2) \<Rightarrow> insertInitialItems w2)
         else (Return (), w1))"

section \<open>The export utility (json.go)\<close>

text \<open>
  \<open>json.Marshal\<close> turns a struct into a JSON object with one member per field, named by
  the field's \<open>json\<close> tag, in the order of the declaration; a slice into an array, and
  a nil slice into \<open>null\<close>. \<open>Elements\<close> is a slice: \<open>None\<close> is the nil slice it
  starts as, and \<open>append\<close> makes a slice that is not nil.
\<close>

datatype json = JNull | JBool bool | JString string | JArray "json list" | JObject "(string \<times> json) list"

record Item =
  Text :: string
  Emoji' :: string
  Discovered :: bool

record ItemsList =
  Elements :: "Item list option"

definition marshalItem :: "Item \<Rightarrow> json" where
  "marshalItem item =
     JObject [(''text'', JString (Text item)), (''emoji'', JString (Emoji' item)),
              (''discovered'', JBool (Discovered item))]"

definition marshalItemsList :: "ItemsList \<Rightarrow> json" where
  "marshalItemsList l =
     JObject [(''elements'', (case Elements l of None \<Rightarrow> JNull | Some xs \<Rightarrow> JArray (map marshalItem xs)))]"

definition appendItem :: "Item list option \<Rightarrow> Item \<Rightarrow> Item list option" where
  "appendItem s x = (case s of None \<Rightarrow> Some [x] | Some xs \<Rightarrow> Some (xs @ [x]))"

definition scanRow :: "item_row \<Rightarrow> Item" where
  "scanRow r = \<lparr>Text = fst r, Emoji' = fst (snd r), Discovered = snd (snd r)\<rparr>"

text \<open>
  \<open>main\<close> of json.go: every failure is a \<open>log.Fatal\<close>. The value returned is what is
  written to \<open>localStorage.json\<close>.
\<close>

definition exportMain :: "bool \<Rightarrow> world \<Rightarrow> json outcome \<times> world" where
  "exportMain writeFileFails w =
     (if sqlOpenFails w then (Crashed Exit, logrus FatalLevel [ArgErr ErrSqlOpen] w)
      else
        (let (fault, w1) = sendStatement w in
         if fault then (Crashed Exit, logrus FatalLevel [ArgErr ErrStoreIO] w1)
         else case itemsTable w1 of
                None \<Rightarrow> (Crashed Exit, logrus FatalLevel [ArgErr ErrNoSuchTable] w1)
              | Some rows \<Rightarrow>
                  (let itemsList = fold (\<lambda>r l. l\<lparr>Elements := appendItem (Elements l) (scanRow r)\<rparr>)
                                     rows \<lparr>Elements = None\<rparr>;
                       jsonData = marshalItemsList itemsList
                   in if writeFileFails
                      then (Crashed Exit,
                            logrus FatalLevel [ArgStr ''Error writing to file:'', ArgErr ErrWriteFile] w1)
                      else (Return jsonData, w1))))"

section \<open>Worlds to run the engine in\<close>

text \<open>
  \<open>seededWorld\<close> is the state right after a first start: the four seed rows, no
  combination, the cache filled from the table, a store that never faults and an endpoint
  that answers every pair with Steam. The other worlds change one thing each.
\<close>

definition steam :: ApiResponse where
  "steam = \<lparr>Result = ''Steam'', Emoji = ''~'', IsNew = True\<rparr>"

definition steamServer :: "nat \<Rightarrow> string \<Rightarrow> string \<Rightarrow> http_outcome" where
  "steamServer n first second = Response 200 [] (Decoded steam)"

definition neverFaults :: "nat \<Rightarrow> bool" where
  "neverFaults n = False"

definition countingSource :: "nat \<Rightarrow> nat" where
  "countingSource n = n"

definition zeroSource :: "nat \<Rightarrow> nat" where
  "zeroSource n = 0"

definition seedRow :: "string \<times> string \<Rightarrow> item_row" where
  "seedRow item = (fst item, (snd item, False))"

definition seededWorld :: world where
  "seededWorld =
     \<lparr>itemsTable = Some (map seedRow initialItems), combinationsTable = Some [],
      localItemsCache = initialItems, logLines = [], writes = [], requests = [], sleeps = [],
      frames = 0, maxFrames = 0, dbFault = neverFaults, dbTick = 0, httpServer = steamServer,
      randSource = countingSource, randTick = 0, mapSeed = zeroSource, mapTick = 0,
      statItemsDb = StatOk, sqlOpenFails = False\<rparr>"

definition throttlingServer :: "nat \<Rightarrow> string \<Rightarrow> string \<Rightarrow> http_outcome" where
  "throttlingServer n first second =
     (if n < 2 then Response 429 ''1'' ReadFails else Response 200 [] (Decoded steam))"

definition throttledWorld :: world where
  "throttledWorld = seededWorld\<lparr>httpServer := throttlingServer\<rparr>"

definition hugeRetryServer :: "nat \<Rightarrow> string \<Rightarrow> string \<Rightarrow> http_outcome" where
  "hugeRetryServer n first second =
     (if n = 0 then Response 429 ''9223372036'' ReadFails else Response 200 [] (Decoded steam))"

definition hugeRetryWorld :: world where
  "hugeRetryWorld = seededWorld\<lparr>httpServer := hugeRetryServer\<rparr>"

definition loneWorld :: world where
  "loneWorld = seededWorld\<lparr>itemsTable := Some [(''Water'', (''w'', False))],
                            localItemsCache := [(''Water'', ''w'')]\<rparr>"

definition brokenStoreWorld :: world where
  "brokenStoreWorld = seededWorld\<lparr>combinationsTable := None\<rparr>"

definition exploredWorld :: world where
  "exploredWorld =
     seededWorld\<lparr>itemsTable := Some [(''Water'', (''w'', False)), (''Fire'', (''f'', False))],
                  combinationsTable := Some [(1, ''Water'', ''Fire'', ''Fire''), (2, ''Fire'', ''Water'', ''Water'')],
                  localItemsCache := [(''Water'', ''w''), (''Fire'', ''f'')]\<rparr>"

definition absentWorld :: world where
  "absentWorld = seededWorld\<lparr>itemsTable := None, combinationsTable := None, localItemsCache := [],
                              statItemsDb := StatErrNotExist\<rparr>"

definition unreadableWorld :: world where
  "unreadableWorld = absentWorld\<lparr>statItemsDb := StatErrOther\<rparr>"


section \<open>Predicates the properties are stated with\<close>

definition itemNames :: "world \<Rightarrow> string list" where
  "itemNames w = (case itemsTable w of None \<Rightarrow> [] | Some rows \<Rightarrow> map fst rows)"

definition combinationRows :: "world \<Rightarrow> combination_row list" where
  "combinationRows w = (case combinationsTable w of None \<Rightarrow> [] | Some rows \<Rightarrow> rows)"

text \<open>Every combination row names, as its result, a row of \<open>items\<close>.\<close>

definition resultsReferenced :: "world \<Rightarrow> bool" where
  "resultsReferenced w = list_all (\<lambda>c. resultOf c \<in> set (itemNames w)) (combinationRows w)"

text \<open>Every ordered pair of two different keys of the cache has a combination row.\<close>

definition everyPairExplored :: "world \<Rightarrow> bool" where
  "everyPairExplored w =
     list_all (\<lambda>a. list_all (\<lambda>b. a = b \<or> (a, b) \<in> set (map pairOf (combinationRows w))) (cacheKeys w))
       (cacheKeys w)"

text \<open>
  A source of random numbers is fair for \<open>n\<close> when, after each of its values, a later
  one gives another index below \<open>n\<close>.
\<close>

definition fairSource :: "(nat \<Rightarrow> nat) \<Rightarrow> nat \<Rightarrow> bool" where
  "fairSource src n = (\<forall>t. \<exists>k. src (Suc (t + k)) mod n \<noteq> src t mod n)"

definition throttled :: "http_outcome \<Rightarrow> bool" where
  "throttled answer = (case answer of Response statusCode h b \<Rightarrow> statusCode = 429 | _ \<Rightarrow> False)"

definition reportsCounts :: "int \<Rightarrow> int \<Rightarrow> level \<times> log_arg list \<Rightarrow> bool" where
  "reportsCounts created attempts line =
     (ArgInt created \<in> set (snd line) \<and> ArgInt attempts \<in> set (snd line))"

section \<open>The entry upsert\<close>

lemma update_filter_one:
  "distinct (map fst al) \<Longrightarrow> length (filter (\<lambda>r. fst r = k) (AList.update k v al)) = 1"
  by (induction al) (auto simp: filter_empty_conv image_iff)

lemma update_keys_same:
  "k \<in> set (map fst al) \<Longrightarrow> map fst (AList.update k v al) = map fst al"
  by (induction al) auto

lemma update_keys_new:
  "k \<notin> set (map fst al) \<Longrightarrow> map fst (AList.update k v al) = map fst al @ [k]"
  by (induction al) auto

lemma update_twice: "AList.update k v (AList.update k v al) = AList.update k v al"
  by (induction al) auto

lemma insertOrUpdateItem_Return:
  "fst (insertOrUpdateItem name emoji isNew w) = Return () \<longleftrightarrow>
     (\<not> dbFault w (dbTick w) \<and> itemsTable w \<noteq> None)"
  by (auto simp: insertOrUpdateItem_def execUpsertItem_def sendStatement_def logrus_def Let_def
           split: option.splits)

lemma insertOrUpdateItem_table:
  "itemsTable (snd (insertOrUpdateItem name emoji isNew w)) =
     (if dbFault w (dbTick w) then itemsTable w
      else map_option (AList.update name (emoji, isNew)) (itemsTable w))"
  by (auto simp: insertOrUpdateItem_def execUpsertItem_def sendStatement_def logrus_def Let_def
           split: option.splits)

lemma insertOrUpdateItem_combinations:
  "combinationsTable (snd (insertOrUpdateItem name emoji isNew w)) = combinationsTable w"
  by (auto simp: insertOrUpdateItem_def execUpsertItem_def sendStatement_def logrus_def Let_def
           split: option.splits)

lemma insertOrUpdateItem_cache:
  "localItemsCache (snd (insertOrUpdateItem name emoji isNew w)) =
     AList.update name emoji (localItemsCache w)"
  by (auto simp: insertOrUpdateItem_def execUpsertItem_def sendStatement_def logrus_def Let_def
           split: option.splits)

text \<open>
  Claim C6. When \<open>insertOrUpdateItem\<close> has run once without a fatal error, running it
  again with the same name, emoji and isNew leaves both tables and the cache as the first
  call left them. After the first call the row of that name holds the emoji and isNew
  given, every other name has the row it had, the names of the table are the ones it had
  (in the same order) when the name was among them and those followed by the new name
  otherwise, and a table with one row per name has exactly one row for that name.
\<close>

theorem insertOrUpdateItem_idempotent:
  assumes ok: "fst (insertOrUpdateItem name emoji isNew w) = Return ()"
  shows "let w1 = snd (insertOrUpdateItem name emoji isNew w);
             w2 = snd (insertOrUpdateItem name emoji isNew w1)
         in itemsTable w2 = itemsTable w1 \<and> combinationsTable w2 = combinationsTable w1 \<and>
            localItemsCache w2 = localItemsCache w1 \<and>
            (\<exists>rows rows1. itemsTable w = Some rows \<and> itemsTable w1 = Some rows1 \<and>
               map_of rows1 name = Some (emoji, isNew) \<and>
               (\<forall>k. k \<noteq> name \<longrightarrow> map_of rows1 k = map_of rows k) \<and>
               (name \<in> set (map fst rows) \<longrightarrow> map fst rows1 = map fst rows) \<and>
               (name \<notin> set (map fst rows) \<longrightarrow> map fst rows1 = map fst rows @ [name]) \<and>
               (distinct (map fst rows) \<longrightarrow>
                  distinct (map fst rows1) \<and> length (filter (\<lambda>r. fst r = name) rows1) = 1))"
proof -
  from ok obtain rows where nf: "\<not> dbFault w (dbTick w)" and t: "itemsTable w = Some rows"
    by (auto simp: insertOrUpdateItem_Return)
  let ?rows1 = "AList.update name (emoji, isNew) rows"
  have t1: "itemsTable (snd (insertOrUpdateItem name emoji isNew w)) = Some ?rows1"
    using nf t by (simp add: insertOrUpdateItem_table)
  show ?thesis
    unfolding Let_def
    apply (intro conjI)
       apply (simp add: insertOrUpdateItem_table[of _ _ _ "snd _"] t1 update_twice)
      apply (simp add: insertOrUpdateItem_combinations)
     apply (simp add: insertOrUpdateItem_cache update_twice)
    apply (rule exI[of _ rows], rule exI[of _ ?rows1])
    using t t1
    apply (simp add: update_conv' update_keys_same update_keys_new distinct_update update_filter_one
                del: set_map)
    done
qed

theorem insertOrUpdateItem_idempotent_witness:
  "fst (insertOrUpdateItem ''Fire'' ''*'' True seededWorld) = Return () \<and>
   itemsTable (snd (insertOrUpdateItem ''Fire'' ''*'' True
                      (snd (insertOrUpdateItem ''Fire'' ''*'' True seededWorld)))) =
     itemsTable (snd (insertOrUpdateItem ''Fire'' ''*'' True seededWorld)) \<and>
   map_option (map fst) (itemsTable (snd (insertOrUpdateItem ''Fire'' ''*'' True seededWorld))) =
     Some [''Water'', ''Fire'', ''Wind'', ''Earth'']"
proof -
  have h: "fst (insertOrUpdateItem ''Fire'' ''*'' True seededWorld) = Return ()"
    by (simp add: insertOrUpdateItem_Return seededWorld_def neverFaults_def)
  have t: "map_option (map fst) (itemsTable (snd (insertOrUpdateItem ''Fire'' ''*'' True seededWorld))) =
             Some [''Water'', ''Fire'', ''Wind'', ''Earth'']"
    by (simp add: insertOrUpdateItem_table seededWorld_def neverFaults_def initialItems_def seedRow_def)
  from insertOrUpdateItem_idempotent [OF h] h t show ?thesis
    by (simp add: Let_def)
qed

section \<open>Start-up: when the tables are created\<close>

lemma checkDatabaseExists_iff: "checkDatabaseExists w = (statItemsDb w \<noteq> StatErrNotExist)"
  by (cases "statItemsDb w") (simp_all add: checkDatabaseExists_def osIsNotExist_def)

lemma initializeDatabase_exists:
  "statItemsDb w \<noteq> StatErrNotExist \<Longrightarrow>
     initializeDatabase w =
       (if sqlOpenFails w
        then (Crashed Exit, logrus FatalLevel [ArgStr ''Failed to open database: '', ArgErr ErrSqlOpen]
                              (logrus DebugLevel [ArgStr ''Database exists: '', ArgBool True] w))
        else (Return (), logrus DebugLevel [ArgStr ''Database exists: '', ArgBool True] w))"
  by (simp add: initializeDatabase_def checkDatabaseExists_iff Let_def logrus_def)

lemma createTables_fresh:
  "itemsTable w = None \<Longrightarrow> combinationsTable w = None \<Longrightarrow> \<not> dbFault w (dbTick w) \<Longrightarrow>
   \<not> dbFault w (Suc (dbTick w)) \<Longrightarrow>
   createTables w =
     (Return (), w\<lparr>itemsTable := Some [], combinationsTable := Some [],
                   logLines := logLines w @ [(InfoLevel, [ArgStr ''Created items table'']),
                                             (InfoLevel, [ArgStr ''Created combinations table''])],
                   writes := writes w @ [CreatedItemsTable, CreatedCombinationsTable],
                   dbTick := dbTick w + 2\<rparr>)"
  by (simp add: createTables_def execCreateItemsTable_def execCreateCombinationsTable_def
        sendStatement_def logrus_def Let_def)

lemma execInsertItem_ok:
  "itemsTable w = Some rows \<Longrightarrow> \<not> dbFault w (dbTick w) \<Longrightarrow> name \<notin> set (map fst rows) \<Longrightarrow>
   execInsertItem name emoji isNew w =
     (None, w\<lparr>itemsTable := Some (rows @ [(name, (emoji, isNew))]),
               writes := writes w @ [WroteItem name emoji isNew], dbTick := Suc (dbTick w)\<rparr>)"
  by (simp add: execInsertItem_def sendStatement_def Let_def)

lemma insertEach_ok:
  "itemsTable w = Some rows \<Longrightarrow> \<forall>n < length items. \<not> dbFault w (dbTick w + n) \<Longrightarrow>
   distinct (map fst rows @ map fst items) \<Longrightarrow>
   insertEach items w =
     (Return (), w\<lparr>itemsTable := Some (rows @ map seedRow items),
                   writes := writes w @ map (\<lambda>i. WroteItem (fst i) (snd i) False) items,
                   dbTick := dbTick w + length items\<rparr>)"
proof (induction items arbitrary: w rows)
  case Nil
  then show ?case by simp
next
  case (Cons item items)
  have nf: "\<not> dbFault w (dbTick w)" using Cons.prems(2) by force
  have new: "fst item \<notin> set (map fst rows)" using Cons.prems(3) by auto
  let ?w' = "w\<lparr>itemsTable := Some (rows @ [(fst item, (snd item, False))]),
               writes := writes w @ [WroteItem (fst item) (snd item) False], dbTick := Suc (dbTick w)\<rparr>"
  have step: "execInsertItem (fst item) (snd item) False w = (None, ?w')"
    by (rule execInsertItem_ok [OF Cons.prems(1) nf new])
  have faults: "\<forall>n < length items. \<not> dbFault ?w' (dbTick ?w' + n)"
    using Cons.prems(2) by force
  have d: "distinct (map fst (rows @ [(fst item, (snd item, False))]) @ map fst items)"
    using Cons.prems(3) by auto
  have "insertEach items ?w' =
     (Return (), ?w'\<lparr>itemsTable := Some ((rows @ [(fst item, (snd item, False))]) @ map seedRow items),
                   writes := writes ?w' @ map (\<lambda>i. WroteItem (fst i) (snd i) False) items,
                   dbTick := dbTick ?w' + length items\<rparr>)"
    by (rule Cons.IH [OF _ faults d]) simp
  then show ?case
    by (simp add: step seedRow_def)
qed

lemma initialItems_distinct: "distinct (map fst initialItems)" "length initialItems = 4"
  by (simp_all add: initialItems_def)

text \<open>
  Claim C10. \<open>checkDatabaseExists\<close> answers true unless \<open>os.Stat\<close> fails with a
  not-exist error; in particular it answers true when \<open>os.Stat\<close> fails with any other
  error. Whenever it answers true, \<open>initializeDatabase\<close> sends no statement to the store:
  both tables stay as they were (absent, if they were absent) and nothing is written, and the
  function returns normally unless \<open>sql.Open\<close> fails. On a not-exist error, with no table
  there and a store that does not fault, it creates the two tables and inserts the four
  seed rows.
\<close>

theorem initializeDatabase_bootstrap_only_on_not_exist:
  "checkDatabaseExists w = (statItemsDb w \<noteq> StatErrNotExist) \<and>
   (statItemsDb w \<noteq> StatErrNotExist \<longrightarrow>
      itemsTable (snd (initializeDatabase w)) = itemsTable w \<and>
      combinationsTable (snd (initializeDatabase w)) = combinationsTable w \<and>
      writes (snd (initializeDatabase w)) = writes w \<and>
      dbTick (snd (initializeDatabase w)) = dbTick w \<and>
      (\<not> sqlOpenFails w \<longrightarrow> fst (initializeDatabase w) = Return ())) \<and>
   (statItemsDb w = StatErrNotExist \<and> \<not> sqlOpenFails w \<and> itemsTable w = None \<and>
    combinationsTable w = None \<and> (\<forall>n<6. \<not> dbFault w (dbTick w + n)) \<longrightarrow>
      fst (initializeDatabase w) = Return () \<and>
      itemsTable (snd (initializeDatabase w)) = Some (map seedRow initialItems) \<and>
      combinationsTable (snd (initializeDatabase w)) = Some [] \<and>
      writes (snd (initializeDatabase w)) =
        writes w @ [CreatedItemsTable, CreatedCombinationsTable] @
        map (\<lambda>i. WroteItem (fst i) (snd i) False) initialItems)"
proof (intro conjI impI)
  show "checkDatabaseExists w = (statItemsDb w \<noteq> StatErrNotExist)"
    by (rule checkDatabaseExists_iff)
next
  assume a: "statItemsDb w = StatErrNotExist \<and> \<not> sqlOpenFails w \<and> itemsTable w = None \<and>
    combinationsTable w = None \<and> (\<forall>n<6. \<not> dbFault w (dbTick w + n))"
  let ?w1 = "logrus DebugLevel [ArgStr ''Database exists: '', ArgBool False] w"
  have f0: "\<not> dbFault w (dbTick w)" using a by force
  have "(1::nat) < 6" by simp
  with a have "\<not> dbFault w (dbTick w + 1)" by blast
  then have f1: "\<not> dbFault w (Suc (dbTick w))" by simp
  have ct: "createTables ?w1 = (Return (), ?w1\<lparr>itemsTable := Some [], combinationsTable := Some [],
                   logLines := logLines ?w1 @ [(InfoLevel, [ArgStr ''Created items table'']),
                                             (InfoLevel, [ArgStr ''Created combinations table''])],
                   writes := writes ?w1 @ [CreatedItemsTable, CreatedCombinationsTable],
                   dbTick := dbTick ?w1 + 2\<rparr>)" (is "_ = (_, ?w2)")
    using a f0 f1 by (intro createTables_fresh) (simp_all add: logrus_def)
  have faults: "\<forall>n < length initialItems. \<not> dbFault ?w2 (dbTick ?w2 + n)"
  proof (intro allI impI)
    fix n assume "n < length initialItems"
    then have "2 + n < 6" by (simp add: initialItems_distinct)
    with a have "\<not> dbFault w (dbTick w + (2 + n))" by blast
    then show "\<not> dbFault ?w2 (dbTick ?w2 + n)" by (simp add: logrus_def add.assoc)
  qed
  have ie: "insertEach initialItems ?w2 =
     (Return (), ?w2\<lparr>itemsTable := Some ([] @ map seedRow initialItems),
                   writes := writes ?w2 @ map (\<lambda>i. WroteItem (fst i) (snd i) False) initialItems,
                   dbTick := dbTick ?w2 + length initialItems\<rparr>)"
    by (rule insertEach_ok [OF _ faults]) (simp_all add: initialItems_distinct)
  have init: "initializeDatabase w = insertInitialItems ?w2"
    using a by (simp add: initializeDatabase_def checkDatabaseExists_iff Let_def ct) (simp add: logrus_def)
  show "fst (initializeDatabase w) = Return ()"
    unfolding init insertInitialItems_def ie by simp
  show "itemsTable (snd (initializeDatabase w)) = Some (map seedRow initialItems)"
    unfolding init insertInitialItems_def ie by (simp add: logrus_def)
  show "combinationsTable (snd (initializeDatabase w)) = Some []"
    unfolding init insertInitialItems_def ie by (simp add: logrus_def)
  show "writes (snd (initializeDatabase w)) =
        writes w @ [CreatedItemsTable, CreatedCombinationsTable] @
        map (\<lambda>i. WroteItem (fst i) (snd i) False) initialItems"
    unfolding init insertInitialItems_def ie by (simp add: logrus_def)
qed (simp_all add: initializeDatabase_exists logrus_def)

theorem initializeDatabase_bootstrap_only_on_not_exist_witness:
  "statItemsDb unreadableWorld \<noteq> StatErrNotExist \<and> \<not> sqlOpenFails unreadableWorld \<and>
   fst (initializeDatabase unreadableWorld) = Return () \<and>
   itemsTable (snd (initializeDatabase unreadableWorld)) = None \<and>
   combinationsTable (snd (initializeDatabase unreadableWorld)) = None \<and>
   statItemsDb absentWorld = StatErrNotExist \<and>
   map_option (map fst) (itemsTable (snd (initializeDatabase absentWorld))) =
     Some [''Water'', ''Fire'', ''Wind'', ''Earth'']"
proof -
  have u: "statItemsDb unreadableWorld \<noteq> StatErrNotExist" "\<not> sqlOpenFails unreadableWorld"
    "itemsTable unreadableWorld = None" "combinationsTable unreadableWorld = None"
    by (simp_all add: unreadableWorld_def absentWorld_def seededWorld_def)
  have a: "statItemsDb absentWorld = StatErrNotExist" "\<not> sqlOpenFails absentWorld"
    "itemsTable absentWorld = None" "combinationsTable absentWorld = None"
    "\<forall>n<6. \<not> dbFault absentWorld (dbTick absentWorld + n)"
    by (simp_all add: absentWorld_def seededWorld_def neverFaults_def)
  from initializeDatabase_bootstrap_only_on_not_exist [of unreadableWorld]
       initializeDatabase_bootstrap_only_on_not_exist [of absentWorld] u a
  show ?thesis
    by (simp add: initialItems_def seedRow_def)
qed

section \<open>The export utility\<close>

lemma fold_appendItem:
  "fold (\<lambda>r l. l\<lparr>Elements := appendItem (Elements l) (scanRow r)\<rparr>) rows \<lparr>Elements = e\<rparr> =
     \<lparr>Elements = (if rows = [] then e
                  else Some ((case e of None \<Rightarrow> [] | Some xs \<Rightarrow> xs) @ map scanRow rows))\<rparr>"
  by (induction rows arbitrary: e) (auto simp: appendItem_def split: option.splits)

lemma exportMain_value:
  assumes "\<not> sqlOpenFails w" "\<not> dbFault w (dbTick w)" "itemsTable w = Some rows"
  shows "fst (exportMain False w) =
           Return (JObject [(''elements'',
                    (if rows = [] then JNull else JArray (map (marshalItem \<circ> scanRow) rows)))])"
  using assms
  by (simp add: exportMain_def sendStatement_def Let_def fold_appendItem marshalItemsList_def)

lemma exportMain_empty_table:
  assumes "\<not> sqlOpenFails w" "\<not> dbFault w (dbTick w)" "itemsTable w = Some []"
  shows "fst (exportMain False w) = Return (JObject [(''elements'', JNull)])"
  using exportMain_value [OF assms] by simp

text \<open>
  Claim C9, as the code has it. When the \<open>items\<close> table can be read and has at least one
  row, what the export utility writes is one JSON object with the single member
  \<open>elements\<close>, whose value is the array holding, for every row of the table and in the
  order of the rows, an object with exactly the members \<open>text\<close> (the name), \<open>emoji\<close> (the
  glyph) and \<open>discovered\<close> (isNew).
\<close>

theorem exportMain_elements_object:
  assumes "\<not> sqlOpenFails w" and "\<not> dbFault w (dbTick w)" and "itemsTable w = Some rows"
    and "rows \<noteq> []"
  shows "fst (exportMain False w) =
           Return (JObject [(''elements'',
             JArray (map (\<lambda>r. JObject [(''text'', JString (fst r)), (''emoji'', JString (fst (snd r))),
                                        (''discovered'', JBool (snd (snd r)))]) rows))])"
  using exportMain_value [OF assms(1-3)] assms(4)
  by (simp add: marshalItem_def scanRow_def comp_def)

theorem exportMain_elements_object_witness:
  "\<not> sqlOpenFails loneWorld \<and> \<not> dbFault loneWorld (dbTick loneWorld) \<and>
   itemsTable loneWorld = Some [(''Water'', (''w'', False))] \<and> [(''Water'', (''w'', False))] \<noteq> [] \<and>
   fst (exportMain False loneWorld) =
     Return (JObject [(''elements'',
       JArray [JObject [(''text'', JString ''Water''), (''emoji'', JString ''w''),
                        (''discovered'', JBool False)]])])"
proof -
  have h: "\<not> sqlOpenFails loneWorld" "\<not> dbFault loneWorld (dbTick loneWorld)"
    "itemsTable loneWorld = Some [(''Water'', (''w'', False))]"
    by (simp_all add: loneWorld_def seededWorld_def neverFaults_def)
  from exportMain_elements_object [OF h] h show ?thesis
    by simp
qed

text \<open>
  Claim C9 as it is written says that the file holds a JSON array. On the store with the
  one row Water it holds an object instead.
\<close>

theorem exportMain_not_an_array:
  "fst (exportMain False loneWorld) \<noteq>
     Return (JArray [JObject [(''text'', JString ''Water''), (''emoji'', JString ''w''),
                              (''discovered'', JBool False)]])"
  by (simp add: exportMain_def sendStatement_def Let_def loneWorld_def seededWorld_def neverFaults_def
        marshalItemsList_def appendItem_def)

section \<open>The Combine Client\<close>


lemma sint_word_of_int_64:
  "- (2 ^ 63) \<le> x \<Longrightarrow> x < 2 ^ 63 \<Longrightarrow> sint (word_of_int x :: 64 word) = x"
  by (simp add: sint_sbintrunc' signed_take_bit_int_eq_self)

lemma retry_sleep_in_range:
  assumes "- (2 ^ 63) \<le> (r + 1) * 1000000000" and "(r + 1) * 1000000000 < (2 ^ 63 :: int)"
  shows "sint (word_of_int (r + 1) * timeSecond :: 64 word) = (r + 1) * 1000000000"
proof -
  have "(word_of_int (r + 1) * timeSecond :: 64 word) = word_of_int ((r + 1) * 1000000000)"
    by (simp add: timeSecond_def)
  then show ?thesis
    using sint_word_of_int_64 [OF assms] by simp
qed

text \<open>
  Claim C4 at the header value 9223372036: the duration handed to \<open>time.Sleep\<close> is
  \<open>9223372037 * 1000000000\<close> wrapped around in 64 bits, a negative number, for which
  \<open>time.Sleep\<close> returns at once. The request is then sent again for the same pair and
  the second answer is returned.
\<close>

theorem callApi_retry_after_overflow:
  "Atoi ''9223372036'' = Inr 9223372036 \<and>
   (\<exists>w'. callApi ''Water'' ''Fire'' hugeRetryWorld = Some (Return (Inr steam), w') \<and>
         map sint (sleeps w') = [- 9223372036709551616] \<and>
         requests w' = [(''Water'', ''Fire''), (''Water'', ''Fire'')])"
  apply (subst callApi.simps, subst callApi.simps)
  apply (simp add: hugeRetryWorld_def seededWorld_def hugeRetryServer_def enterFrame_def leaveFrame_def
        logrus_def clientDo_def timeSleep_def Atoi_def digitValue_def timeSecond_def)
  done

section \<open>The retry of callApi\<close>

lemma callApi_frame:
  assumes "callApi first second w = Some y"
  shows "itemsTable (snd y) = itemsTable w \<and> combinationsTable (snd y) = combinationsTable w \<and>
         localItemsCache (snd y) = localItemsCache w \<and> writes (snd y) = writes w \<and>
         dbFault (snd y) = dbFault w \<and> dbTick (snd y) = dbTick w \<and>
         httpServer (snd y) = httpServer w \<and> randSource (snd y) = randSource w \<and>
         randTick (snd y) = randTick w \<and> mapSeed (snd y) = mapSeed w \<and> mapTick (snd y) = mapTick w"
  using assms
proof (induction rule: callApi.raw_induct [rotated 1, consumes 1])
  case (1 callApi' first second w y)
  show ?case
  proof (cases "httpServer w (length (requests w)) first second")
    case NewRequestFails
    with 1(2) show ?thesis
      by (auto simp: Let_def enterFrame_def leaveFrame_def)
  next
    case DoFails
    with 1(2) show ?thesis
      by (auto simp: Let_def enterFrame_def leaveFrame_def logrus_def clientDo_def)
  next
    case (Response statusCode h body)
    show ?thesis
    proof (cases "statusCode = 429")
      case True
      with 1(2) Response obtain w3 y' where w3: "callApi' first second w3 = Some y'"
        and y: "snd y = leaveFrame (snd y')"
        and eq: "itemsTable w3 = itemsTable w" "combinationsTable w3 = combinationsTable w"
          "localItemsCache w3 = localItemsCache w" "writes w3 = writes w" "dbFault w3 = dbFault w"
          "dbTick w3 = dbTick w" "httpServer w3 = httpServer w" "randSource w3 = randSource w"
          "randTick w3 = randTick w" "mapSeed w3 = mapSeed w" "mapTick w3 = mapTick w"
        by (auto simp: Let_def enterFrame_def logrus_def clientDo_def timeSleep_def bind_eq_Some_conv)
      from 1(1) [OF w3] eq y show ?thesis
        by (simp add: leaveFrame_def)
    next
      case False
      with 1(2) Response show ?thesis
        by (auto simp: Let_def enterFrame_def leaveFrame_def logrus_def clientDo_def
                 split: if_splits body_outcome.splits)
    qed
  qed
qed

text \<open>The world in which \<open>callApi\<close> calls itself after an answer with status 429.\<close>

lemma callApi_429:
  assumes "httpServer w (length (requests w)) first second = Response 429 h body"
  shows "callApi first second w =
           Option.bind
             (callApi first second
                (timeSleep (word_of_int ((case Atoi h of Inl err \<Rightarrow> 60 | Inr n \<Rightarrow> n) + 1) * timeSecond)
                   (clientDo first second
                      (logrus DebugLevel [ArgStr ''Calling API with URL: '', ArgStr first, ArgStr second]
                         (enterFrame w)))))
             (\<lambda>(r, w4). Some (r, leaveFrame w4))"
  using assms by (subst callApi.simps) (simp add: enterFrame_def Let_def)

lemma callApi_not_throttled:
  assumes "\<not> throttled (httpServer w (length (requests w)) first second)"
  shows "\<exists>r w'. callApi first second w = Some (r, w') \<and>
                 maxFrames w' = max (maxFrames w) (Suc (frames w)) \<and>
                 length (sleeps w') = length (sleeps w)"
  using assms
  by (subst callApi.simps)
     (auto simp: throttled_def Let_def enterFrame_def leaveFrame_def logrus_def clientDo_def
           split: http_outcome.splits body_outcome.splits)

lemma callApi_after_throttling:
  assumes "\<forall>j<k. throttled (httpServer w (length (requests w) + j) first second)"
    and "\<not> throttled (httpServer w (length (requests w) + k) first second)"
  shows "\<exists>r w'. callApi first second w = Some (r, w') \<and>
                 maxFrames w' = max (maxFrames w) (frames w + k + 1) \<and>
                 length (sleeps w') = length (sleeps w) + k"
  using assms
proof (induction k arbitrary: w)
  case 0
  with callApi_not_throttled [of w first second] show ?case by simp
next
  case (Suc k)
  from Suc.prems(1) have "throttled (httpServer w (length (requests w)) first second)"
    by force
  then obtain h body where o: "httpServer w (length (requests w)) first second = Response 429 h body"
    by (auto simp: throttled_def split: http_outcome.splits)
  define w3 where
    "w3 = timeSleep (word_of_int ((case Atoi h of Inl err \<Rightarrow> 60 | Inr n \<Rightarrow> n) + 1) * timeSecond)
                   (clientDo first second
                      (logrus DebugLevel [ArgStr ''Calling API with URL: '', ArgStr first, ArgStr second]
                         (enterFrame w)))"
  have f: "httpServer w3 = httpServer w" "length (requests w3) = Suc (length (requests w))"
    "frames w3 = Suc (frames w)" "maxFrames w3 = max (maxFrames w) (Suc (frames w))"
    "length (sleeps w3) = Suc (length (sleeps w))"
    by (simp_all add: w3_def timeSleep_def clientDo_def logrus_def enterFrame_def)
  have a: "\<forall>j<k. throttled (httpServer w3 (length (requests w3) + j) first second)"
  proof (intro allI impI)
    fix j assume "j < k"
    then have "Suc j < Suc k" by simp
    with Suc.prems(1) have "throttled (httpServer w (length (requests w) + Suc j) first second)"
      by blast
    then show "throttled (httpServer w3 (length (requests w3) + j) first second)"
      by (simp add: f)
  qed
  have b: "\<not> throttled (httpServer w3 (length (requests w3) + k) first second)"
    using Suc.prems(2) by (simp add: f)
  from Suc.IH [OF a b] obtain r w' where r: "callApi first second w3 = Some (r, w')"
    and m: "maxFrames w' = max (maxFrames w3) (frames w3 + k + 1)"
    and s: "length (sleeps w') = length (sleeps w3) + k"
    by blast
  have "callApi first second w = Some (r, leaveFrame w')"
    unfolding callApi_429 [OF o] w3_def [symmetric] by (simp add: r)
  moreover have "maxFrames (leaveFrame w') = max (maxFrames w) (frames w + Suc k + 1)"
    using m by (simp add: f leaveFrame_def)
  moreover have "length (sleeps (leaveFrame w')) = length (sleeps w) + Suc k"
    using s by (simp add: f leaveFrame_def)
  ultimately show ?case by blast
qed

lemma callApi_returns_unthrottled:
  assumes "callApi first second w = Some y"
  shows "\<exists>j. \<not> throttled (httpServer w (length (requests w) + j) first second)"
  using assms
proof (induction rule: callApi.raw_induct [rotated 1, consumes 1])
  case (1 callApi' first second w y)
  show ?case
  proof (cases "throttled (httpServer w (length (requests w)) first second)")
    case False
    then have "\<not> throttled (httpServer w (length (requests w) + 0) first second)" by simp
    then show ?thesis by blast
  next
    case True
    then obtain h body where o: "httpServer w (length (requests w)) first second = Response 429 h body"
      by (auto simp: throttled_def split: http_outcome.splits)
    with 1(2) obtain w3 y' where w3: "callApi' first second w3 = Some y'"
      and eq: "httpServer w3 = httpServer w" "length (requests w3) = Suc (length (requests w))"
      by (auto simp: Let_def enterFrame_def logrus_def clientDo_def timeSleep_def bind_eq_Some_conv)
    from 1(1) [OF w3] obtain j where "\<not> throttled (httpServer w3 (length (requests w3) + j) first second)"
      by blast
    then have "\<not> throttled (httpServer w (length (requests w) + Suc j) first second)"
      by (simp add: eq)
    then show ?thesis by blast
  qed
qed

text \<open>
  Claim C5, as the code has it. The retry is a call of \<open>callApi\<close> from inside
  \<open>callApi\<close>: when the endpoint answers 429 to the next \<open>k\<close> requests and something
  else to the one after, the function returns, and by then \<open>k + 1\<close> activations of it
  have been open at the same time on top of those already there. When the endpoint
  answers 429 to every request, the function never returns.
\<close>

theorem callApi_recursion_depth:
  "((\<forall>j<k. throttled (httpServer w (length (requests w) + j) first second)) \<and>
    \<not> throttled (httpServer w (length (requests w) + k) first second) \<longrightarrow>
      (\<exists>r w'. callApi first second w = Some (r, w') \<and>
               maxFrames w' = max (maxFrames w) (frames w + k + 1) \<and>
               length (sleeps w') = length (sleeps w) + k)) \<and>
   ((\<forall>j. throttled (httpServer w (length (requests w) + j) first second)) \<longrightarrow>
      callApi first second w = None)"
proof (intro conjI impI)
  assume "(\<forall>j<k. throttled (httpServer w (length (requests w) + j) first second)) \<and>
          \<not> throttled (httpServer w (length (requests w) + k) first second)"
  then show "\<exists>r w'. callApi first second w = Some (r, w') \<and>
               maxFrames w' = max (maxFrames w) (frames w + k + 1) \<and>
               length (sleeps w') = length (sleeps w) + k"
    using callApi_after_throttling by blast
next
  assume "\<forall>j. throttled (httpServer w (length (requests w) + j) first second)"
  with callApi_returns_unthrottled [of first second w] show "callApi first second w = None"
    by (cases "callApi first second w") auto
qed

theorem callApi_recursion_depth_witness:
  "throttled (httpServer throttledWorld (length (requests throttledWorld) + 0) ''Water'' ''Fire'') \<and>
   throttled (httpServer throttledWorld (length (requests throttledWorld) + 1) ''Water'' ''Fire'') \<and>
   \<not> throttled (httpServer throttledWorld (length (requests throttledWorld) + 2) ''Water'' ''Fire'') \<and>
   (\<exists>r w'. callApi ''Water'' ''Fire'' throttledWorld = Some (r, w') \<and> maxFrames w' = 3 \<and>
            length (sleeps w') = 2)"
proof -
  have a: "\<forall>j<2. throttled (httpServer throttledWorld (length (requests throttledWorld) + j) ''Water'' ''Fire'')"
    by (simp add: throttledWorld_def seededWorld_def throttlingServer_def throttled_def)
  have b: "\<not> throttled (httpServer throttledWorld (length (requests throttledWorld) + 2) ''Water'' ''Fire'')"
    by (simp add: throttledWorld_def seededWorld_def throttlingServer_def throttled_def)
  have c: "maxFrames throttledWorld = 0" "frames throttledWorld = 0" "sleeps throttledWorld = []"
    by (simp_all add: throttledWorld_def seededWorld_def)
  from callApi_recursion_depth [of 2 throttledWorld "''Water''" "''Fire''"] a b
  obtain r w' where "callApi ''Water'' ''Fire'' throttledWorld = Some (r, w')"
    and "maxFrames w' = max (maxFrames throttledWorld) (frames throttledWorld + 2 + 1)"
    and "length (sleeps w') = length (sleeps throttledWorld) + 2"
    by blast
  then have "callApi ''Water'' ''Fire'' throttledWorld = Some (r, w') \<and> maxFrames w' = 3 \<and>
             length (sleeps w') = 2"
    by (simp add: c)
  moreover have "throttled (httpServer throttledWorld (length (requests throttledWorld) + 0) ''Water'' ''Fire'')"
    "throttled (httpServer throttledWorld (length (requests throttledWorld) + 1) ''Water'' ''Fire'')"
    by (simp_all add: throttledWorld_def seededWorld_def throttlingServer_def throttled_def)
  ultimately show ?thesis using b by blast
qed

text \<open>
  Claim C5 as it is written says that the depth of the call stack does not depend on the
  number of 429 answers. With two of them before the answer, three activations of
  \<open>callApi\<close> are open at once; with none, one.
\<close>

theorem callApi_depth_grows:
  "map_option (maxFrames \<circ> snd) (callApi ''Water'' ''Fire'' throttledWorld) = Some 3 \<and>
   map_option (maxFrames \<circ> snd) (callApi ''Water'' ''Fire'' seededWorld) = Some 1"
proof -
  have "callApi ''Water'' ''Fire'' seededWorld \<noteq> None \<and>
        map_option (maxFrames \<circ> snd) (callApi ''Water'' ''Fire'' seededWorld) = Some 1"
    by (subst callApi.simps, subst (2) callApi.simps)
       (simp add: seededWorld_def steamServer_def enterFrame_def leaveFrame_def logrus_def clientDo_def)
  moreover have "\<exists>r w'. callApi ''Water'' ''Fire'' throttledWorld = Some (r, w') \<and> maxFrames w' = 3"
    apply (subst callApi.simps, subst callApi.simps, subst callApi.simps)
    apply (simp add: throttledWorld_def seededWorld_def throttlingServer_def enterFrame_def leaveFrame_def
        logrus_def clientDo_def timeSleep_def)
    done
  ultimately show ?thesis by auto
qed

section \<open>combineElements: the entry is written before the combination\<close>

lemma insertOrUpdateItem_cases:
  obtains (ok) rows where "\<not> dbFault w (dbTick w)" "itemsTable w = Some rows"
      "fst (insertOrUpdateItem name emoji isNew w) = Return ()"
      "itemsTable (snd (insertOrUpdateItem name emoji isNew w)) =
         Some (AList.update name (emoji, isNew) rows)"
      "writes (snd (insertOrUpdateItem name emoji isNew w)) = writes w @ [WroteItem name emoji isNew]"
  | (failed) "fst (insertOrUpdateItem name emoji isNew w) = Crashed Exit"
      "itemsTable (snd (insertOrUpdateItem name emoji isNew w)) = itemsTable w"
      "writes (snd (insertOrUpdateItem name emoji isNew w)) = writes w"
  by (cases "dbFault w (dbTick w)"; cases "itemsTable w")
     (auto simp: insertOrUpdateItem_def execUpsertItem_def sendStatement_def logrus_def Let_def)

lemma insertCombination_cases:
  obtains (ok) "fst (insertCombination firstItem secondItem resultItem w) = Return ()"
      "combinationRows (snd (insertCombination firstItem secondItem resultItem w)) =
         combinationRows w @ [(nextId (combinationRows w), firstItem, secondItem, resultItem)]"
      "writes (snd (insertCombination firstItem secondItem resultItem w)) =
         writes w @ [WroteCombination firstItem secondItem resultItem]"
  | (failed) "fst (insertCombination firstItem secondItem resultItem w) = Crashed Exit"
      "combinationsTable (snd (insertCombination firstItem secondItem resultItem w)) = combinationsTable w"
      "writes (snd (insertCombination firstItem secondItem resultItem w)) = writes w"
  by (cases "dbFault w (dbTick w)"; cases "combinationsTable w";
      cases "(firstItem, secondItem) \<in> set (map pairOf (the (combinationsTable w)))")
     (auto simp: insertCombination_def execInsertCombination_def sendStatement_def logrus_def Let_def
        combinationRows_def)

lemma insertCombination_items:
  "itemsTable (snd (insertCombination firstItem secondItem resultItem w)) = itemsTable w"
  by (auto simp: insertCombination_def execInsertCombination_def sendStatement_def logrus_def Let_def
           split: option.splits)

lemma resultsReferenced_cong:
  "itemsTable w' = itemsTable w \<Longrightarrow> combinationsTable w' = combinationsTable w \<Longrightarrow>
   resultsReferenced w' = resultsReferenced w"
  by (simp add: resultsReferenced_def itemNames_def combinationRows_def)

lemma resultsReferenced_upsert:
  assumes "resultsReferenced w"
  shows "resultsReferenced (snd (insertOrUpdateItem name emoji isNew w))"
proof (cases rule: insertOrUpdateItem_cases [of w name emoji isNew])
  case (ok rows)
  have sub: "set (itemNames w) \<subseteq> set (itemNames (snd (insertOrUpdateItem name emoji isNew w)))"
    using ok by (auto simp: itemNames_def dom_update)
  have comb: "combinationRows (snd (insertOrUpdateItem name emoji isNew w)) = combinationRows w"
    by (simp add: combinationRows_def insertOrUpdateItem_combinations)
  show ?thesis
    using assms sub unfolding resultsReferenced_def comb list_all_iff by blast
next
  case failed
  with assms show ?thesis
    by (simp add: resultsReferenced_cong [OF _ insertOrUpdateItem_combinations])
qed

lemma upsert_names_item:
  assumes "fst (insertOrUpdateItem name emoji isNew w) = Return ()"
  shows "name \<in> set (itemNames (snd (insertOrUpdateItem name emoji isNew w)))"
proof (cases rule: insertOrUpdateItem_cases [of w name emoji isNew])
  case (ok rows)
  then show ?thesis by (simp add: itemNames_def dom_update)
next
  case failed
  with assms show ?thesis by simp
qed

lemma resultsReferenced_insertCombination:
  assumes "resultsReferenced w" and "resultItem \<in> set (itemNames w)"
  shows "resultsReferenced (snd (insertCombination firstItem secondItem resultItem w))"
proof (cases rule: insertCombination_cases [of firstItem secondItem resultItem w])
  case ok
  with assms show ?thesis
    by (simp add: resultsReferenced_def itemNames_def insertCombination_items resultOf_def)
next
  case failed
  with assms show ?thesis
    by (simp add: resultsReferenced_cong [OF insertCombination_items])
qed

text \<open>
  Claim C1. Take a store in which every combination row names an existing entry as its
  result, and a run of \<open>combineElements\<close> that comes to an end, normally or by a fatal
  error. In the store it leaves, every combination row still names an existing entry.
  What it wrote is nothing, or the entry of the result alone (and then no combination
  row), or the entry of the result followed by the combination row. When it returns
  normally, the entry was upserted in the world \<open>w1\<close> that \<open>callApi\<close> left, giving a
  world \<open>w2\<close> that has the entry, has the combination table it had at the start and
  names existing entries only; the combination row was inserted in \<open>w2\<close>.
\<close>

theorem combineElements_entry_before_combination:
  assumes inv: "resultsReferenced w" and run: "combineElements first second w = Some (r, w')"
  shows "resultsReferenced w' \<and>
         (writes w' = writes w \<or>
          (\<exists>resp :: ApiResponse. writes w' = writes w @ [WroteItem (Result resp) (Emoji resp) (IsNew resp)] \<and>
                  combinationsTable w' = combinationsTable w \<and> r = Crashed Exit) \<or>
          (\<exists>resp :: ApiResponse. writes w' = writes w @ [WroteItem (Result resp) (Emoji resp) (IsNew resp),
                                          WroteCombination first second (Result resp)] \<and>
                  r = Return ())) \<and>
         (r = Return () \<longrightarrow>
            (\<exists>resp w1 w2.
               callApi first second w = Some (Return (Inr resp), w1) \<and>
               insertOrUpdateItem (Result resp) (Emoji resp) (IsNew resp) w1 = (Return (), w2) \<and>
               resultsReferenced w2 \<and> Result resp \<in> set (itemNames w2) \<and>
               combinationsTable w2 = combinationsTable w \<and>
               insertCombination first second (Result resp) w2 = (Return (), w') \<and>
               writes w2 = writes w @ [WroteItem (Result resp) (Emoji resp) (IsNew resp)] \<and>
               writes w' = writes w2 @ [WroteCombination first second (Result resp)]))"
proof -
  from run obtain a w1 where api: "callApi first second w = Some (a, w1)"
    by (cases "callApi first second w") (auto simp: combineElements_def)
  from callApi_frame [OF api] have fr: "itemsTable w1 = itemsTable w"
    "combinationsTable w1 = combinationsTable w" "writes w1 = writes w"
    by simp_all
  have inv1: "resultsReferenced w1"
    using inv by (simp add: resultsReferenced_cong [OF fr(1,2)])
  show ?thesis
  proof (cases a)
    case (Crashed c)
    with run api have "r = Crashed c" "w' = w1"
      by (simp_all add: combineElements_def)
    with inv1 fr show ?thesis by simp
  next
    case (Return res)
    show ?thesis
    proof (cases res)
      case (Inl err)
      with run api Return have "r = Crashed Exit"
        "w' = logrus FatalLevel [ArgStr ''Failed to call API: '', ArgErr err] w1"
        by (simp_all add: combineElements_def)
      with inv1 fr show ?thesis
        by (simp add: logrus_def resultsReferenced_def itemNames_def combinationRows_def)
    next
      case (Inr resp)
      let ?u = "insertOrUpdateItem (Result resp) (Emoji resp) (IsNew resp) w1"
      let ?w2 = "snd ?u"
      have inv2: "resultsReferenced ?w2"
        by (rule resultsReferenced_upsert [OF inv1])
      have c2: "combinationsTable ?w2 = combinationsTable w"
        by (simp add: insertOrUpdateItem_combinations fr)
      show ?thesis
      proof (cases rule: insertOrUpdateItem_cases [of w1 "Result resp" "Emoji resp" "IsNew resp"])
        case failed
        with run api Return Inr have "r = Crashed Exit" "w' = ?w2"
          by (simp_all add: combineElements_def split: prod.splits)
        with inv2 failed fr show ?thesis by simp
      next
        case (ok rows)
        let ?v = "insertCombination first second (Result resp) ?w2"
        from run api Return Inr ok(3) have rw: "(r, w') = ?v"
          by (simp add: combineElements_def split: prod.splits)
        have named: "Result resp \<in> set (itemNames ?w2)"
          by (rule upsert_names_item [OF ok(3)])
        have inv3: "resultsReferenced w'"
          using resultsReferenced_insertCombination [OF inv2 named, of first second] rw
          by (metis snd_conv)
        have w2: "writes ?w2 = writes w @ [WroteItem (Result resp) (Emoji resp) (IsNew resp)]"
          using ok(5) fr by simp
        show ?thesis
        proof (cases rule: insertCombination_cases [of first second "Result resp" ?w2])
          case failed
          with rw have "r = Crashed Exit" "combinationsTable w' = combinationsTable w"
            "writes w' = writes w @ [WroteItem (Result resp) (Emoji resp) (IsNew resp)]"
            using c2 w2 by (metis fst_conv, metis snd_conv, metis snd_conv)
          then have "\<exists>resp :: ApiResponse. writes w' = writes w @ [WroteItem (Result resp) (Emoji resp) (IsNew resp)] \<and>
                  combinationsTable w' = combinationsTable w \<and> r = Crashed Exit"
            by - (rule exI [of _ resp], simp)
          with inv3 \<open>r = Crashed Exit\<close> show ?thesis by simp
        next
          case ok2: ok
          from ok2 rw have r: "r = Return ()"
            and ww: "writes w' = writes ?w2 @ [WroteCombination first second (Result resp)]"
            by (metis fst_conv, metis snd_conv)
          have u: "?u = (Return (), ?w2)"
            using ok(3) by (metis prod.collapse)
          have v: "?v = (Return (), w')"
            using rw r by simp
          from api Return Inr u inv2 named c2 v w2 ww
          have "\<exists>resp w1 w2.
               callApi first second w = Some (Return (Inr resp), w1) \<and>
               insertOrUpdateItem (Result resp) (Emoji resp) (IsNew resp) w1 = (Return (), w2) \<and>
               resultsReferenced w2 \<and> Result resp \<in> set (itemNames w2) \<and>
               combinationsTable w2 = combinationsTable w \<and>
               insertCombination first second (Result resp) w2 = (Return (), w') \<and>
               writes w2 = writes w @ [WroteItem (Result resp) (Emoji resp) (IsNew resp)] \<and>
               writes w' = writes w2 @ [WroteCombination first second (Result resp)]"
            by blast
          moreover have "writes w' = writes w @ [WroteItem (Result resp) (Emoji resp) (IsNew resp),
                                          WroteCombination first second (Result resp)]"
            using ww w2 by simp
          then have "\<exists>resp :: ApiResponse. writes w' = writes w @ [WroteItem (Result resp) (Emoji resp) (IsNew resp),
                                          WroteCombination first second (Result resp)] \<and> r = Return ()"
            using r by - (rule exI [of _ resp], simp)
          ultimately show ?thesis using inv3 by simp
        qed
      qed
    qed
  qed
qed

theorem combineElements_entry_before_combination_witness:
  "resultsReferenced exploredWorld \<and>
   (\<exists>w'. combineElements ''Fire'' ''Fire'' exploredWorld = Some (Return (), w') \<and>
         resultsReferenced w' \<and>
         writes w' = [WroteItem ''Steam'' ''~'' True, WroteCombination ''Fire'' ''Fire'' ''Steam''])"
proof -
  have inv: "resultsReferenced exploredWorld"
    by (simp add: resultsReferenced_def exploredWorld_def seededWorld_def itemNames_def
          combinationRows_def resultOf_def)
  have "\<exists>w'. combineElements ''Fire'' ''Fire'' exploredWorld = Some (Return (), w')"
    unfolding combineElements_def
    apply (subst callApi.simps)
    apply (simp add: exploredWorld_def seededWorld_def steamServer_def steam_def enterFrame_def
        leaveFrame_def logrus_def clientDo_def insertOrUpdateItem_def execUpsertItem_def
        sendStatement_def neverFaults_def insertCombination_def execInsertCombination_def pairOf_def)
    done
  then obtain w' where run: "combineElements ''Fire'' ''Fire'' exploredWorld = Some (Return (), w')"
    by blast
  from combineElements_entry_before_combination [OF inv run]
  obtain resp w1 where "resultsReferenced w'"
    and api: "callApi ''Fire'' ''Fire'' exploredWorld = Some (Return (Inr resp), w1)"
    and wr: "writes w' = writes exploredWorld @ [WroteItem (Result resp) (Emoji resp) (IsNew resp),
                                          WroteCombination ''Fire'' ''Fire'' (Result resp)]"
    by auto
  have "callApi ''Fire'' ''Fire'' exploredWorld \<noteq> None \<and>
        map_option fst (callApi ''Fire'' ''Fire'' exploredWorld) = Some (Return (Inr steam))"
    by (subst callApi.simps, subst (2) callApi.simps)
       (simp add: exploredWorld_def seededWorld_def steamServer_def enterFrame_def leaveFrame_def
          logrus_def clientDo_def)
  with api have "resp = steam" by simp
  with wr have "writes w' = [WroteItem ''Steam'' ''~'' True, WroteCombination ''Fire'' ''Fire'' ''Steam'']"
    by (simp add: steam_def exploredWorld_def seededWorld_def)
  with inv run \<open>resultsReferenced w'\<close> show ?thesis by blast
qed

section \<open>The Pair Selector\<close>

lemma iterationOrder_perm:
  "length xs = n \<Longrightarrow>
     set (iterationOrder n seed k xs) = set xs \<and> length (iterationOrder n seed k xs) = n \<and>
     (distinct xs \<longrightarrow> distinct (iterationOrder n seed k xs))"
proof (induction n arbitrary: xs k)
  case 0
  then show ?case by simp
next
  case (Suc n)
  define i where "i = seed k mod length xs"
  define rest where "rest = take i xs @ drop (Suc i) xs"
  have i: "i < length xs" using Suc.prems by (simp add: i_def)
  have xs: "xs = take i xs @ xs ! i # drop (Suc i) xs"
    by (rule id_take_nth_drop [OF i])
  have len: "length rest = n" using Suc.prems i by (simp add: rest_def)
  have s: "set xs = insert (xs ! i) (set rest)"
    by (subst xs) (simp add: rest_def)
  have d: "distinct xs \<Longrightarrow> xs ! i \<notin> set rest \<and> distinct rest"
    by (subst (asm) xs) (auto simp: rest_def)
  have io: "iterationOrder (Suc n) seed k xs = xs ! i # iterationOrder n seed (Suc k) rest"
    by (simp add: i_def rest_def Let_def)
  from Suc.IH [OF len, of "Suc k"] s d show ?case
    unfolding io by auto
qed

lemma rangeKeys_items:
  "set (fst (rangeKeys w)) = set (cacheKeys w)" "length (fst (rangeKeys w)) = length (cacheKeys w)"
  "distinct (fst (rangeKeys w))" "snd (rangeKeys w) = w\<lparr>mapTick := mapTick w + length (cacheKeys w)\<rparr>"
  using iterationOrder_perm [of "cacheKeys w" "length (cacheKeys w)" "mapSeed w" "mapTick w"]
  by (simp_all add: rangeKeys_def Let_def cacheKeys_def)

lemma drawSecondIndex_result:
  assumes "drawSecondIndex n firstIndex secondIndex w = Some y"
  shows "0 < n \<longrightarrow>
         (\<exists>i t. y = (Return i, w\<lparr>randTick := t\<rparr>) \<and> i \<noteq> firstIndex \<and> (i = secondIndex \<or> i < n))"
  using assms
proof (induction rule: drawSecondIndex.raw_induct [rotated 1, consumes 1])
  case (1 draw n firstIndex secondIndex w y)
  show ?case
  proof (cases "secondIndex = firstIndex")
    case False
    with 1(2) have "y = (Return secondIndex, w\<lparr>randTick := randTick w\<rparr>)" by simp
    with False show ?thesis by blast
  next
    case True
    show ?thesis
    proof
      assume n: "0 < n"
      let ?i = "randSource w (randTick w) mod n"
      let ?w1 = "w\<lparr>randTick := Suc (randTick w)\<rparr>"
      from 1(2) True n have "draw n firstIndex ?i ?w1 = Some y"
        by (simp add: randIntn_def)
      from 1(1) [OF this] n obtain i t where y: "y = (Return i, ?w1\<lparr>randTick := t\<rparr>)"
        and i: "i \<noteq> firstIndex" "i = ?i \<or> i < n"
        by blast
      from y have "y = (Return i, w\<lparr>randTick := t\<rparr>)" by simp
      moreover from i n have "i < n" by auto
      ultimately show "\<exists>i t. y = (Return i, w\<lparr>randTick := t\<rparr>) \<and> i \<noteq> firstIndex \<and>
                        (i = secondIndex \<or> i < n)"
        using i(1) by blast
    qed
  qed
qed

lemma drawSecondIndex_returns:
  assumes "0 < n" and "randSource w (randTick w + k) mod n \<noteq> firstIndex"
  shows "\<exists>y. drawSecondIndex n firstIndex firstIndex w = Some y"
  using assms
proof (induction k arbitrary: w)
  case 0
  then show ?case
    by (subst drawSecondIndex.simps, subst drawSecondIndex.simps) (simp add: randIntn_def)
next
  case (Suc k)
  let ?w1 = "w\<lparr>randTick := Suc (randTick w)\<rparr>"
  show ?case
  proof (cases "randSource w (randTick w) mod n = firstIndex")
    case False
    with Suc.prems(1) show ?thesis
      by (subst drawSecondIndex.simps, subst drawSecondIndex.simps) (simp add: randIntn_def)
  next
    case True
    have "randSource ?w1 (randTick ?w1 + k) mod n \<noteq> firstIndex"
      using Suc.prems(2) by simp
    from Suc.IH [OF Suc.prems(1) this] obtain y where "drawSecondIndex n firstIndex firstIndex ?w1 = Some y"
      by blast
    with True Suc.prems(1) show ?thesis
      by (subst drawSecondIndex.simps) (simp add: randIntn_def)
  qed
qed

lemma getRandomItems_few:
  assumes "length (cacheKeys w) < 2"
  shows "getRandomItems w =
           Some (Return (Inl ErrNotEnoughItems), w\<lparr>mapTick := mapTick w + length (cacheKeys w)\<rparr>)"
  using assms rangeKeys_items [of w]
  by (simp add: getRandomItems_def split_beta)

lemma getRandomItems_pair:
  assumes "2 \<le> length (cacheKeys w)" and "getRandomItems w = Some (r, w')"
  shows "\<exists>a b m t. r = Return (Inr (a, b)) \<and> a \<noteq> b \<and> a \<in> set (cacheKeys w) \<and>
                   b \<in> set (cacheKeys w) \<and> w' = w\<lparr>mapTick := m, randTick := t\<rparr>"
proof -
  define items where "items = fst (rangeKeys w)"
  define w1 where "w1 = snd (rangeKeys w)"
  define n where "n = length items"
  have it: "set items = set (cacheKeys w)" "distinct items" "2 \<le> n"
    and w1: "w1 = w\<lparr>mapTick := mapTick w + length (cacheKeys w)\<rparr>"
    using rangeKeys_items [of w] assms(1) by (simp_all add: items_def w1_def n_def)
  define i where "i = randSource w1 (randTick w1) mod n"
  define w2 where "w2 = w1\<lparr>randTick := Suc (randTick w1)\<rparr>"
  have i: "i < n" using it(3) by (simp add: i_def)
  have rk: "rangeKeys w = (items, w1)" by (simp add: items_def w1_def)
  have ri: "randIntn n w1 = (Return i, w2)"
    using it(3) by (simp add: randIntn_def i_def w2_def)
  have g: "getRandomItems w =
             (case drawSecondIndex n i i w2 of
                None \<Rightarrow> None
              | Some (Crashed c, w3) \<Rightarrow> Some (Crashed c, w3)
              | Some (Return secondIndex, w3) \<Rightarrow>
                  if i < length items \<and> secondIndex < length items
                  then Some (Return (Inr (items ! i, items ! secondIndex)), w3)
                  else Some (Crashed (Panic PanicIndexOutOfRange), w3))"
    using it(3) by (simp add: getRandomItems_def rk ri n_def [symmetric])
  from assms(2) obtain y where y: "drawSecondIndex n i i w2 = Some y"
    unfolding g by (cases "drawSecondIndex n i i w2") simp_all
  from drawSecondIndex_result [OF y] it(3) i obtain j t where
    yy: "y = (Return j, w2\<lparr>randTick := t\<rparr>)" and j: "j \<noteq> i" "j < n"
    by auto
  from assms(2) have r: "r = Return (Inr (items ! i, items ! j))" and w': "w' = w2\<lparr>randTick := t\<rparr>"
    unfolding g y yy using i j by (simp_all add: n_def)
  have "items ! i \<noteq> items ! j"
    using it(2) i j by (simp add: nth_eq_iff_index_eq n_def)
  moreover have "items ! i \<in> set (cacheKeys w)" "items ! j \<in> set (cacheKeys w)"
    using i j it(1) nth_mem [of i items] nth_mem [of j items] by (simp_all add: n_def)
  moreover have "w' = w\<lparr>mapTick := mapTick w + length (cacheKeys w), randTick := t\<rparr>"
    by (simp add: w' w2_def w1)
  ultimately show ?thesis using r by blast
qed

lemma getRandomItems_returns:
  assumes "2 \<le> length (cacheKeys w)"
    and "randSource w (Suc (randTick w + k)) mod length (cacheKeys w) \<noteq>
         randSource w (randTick w) mod length (cacheKeys w)"
  shows "getRandomItems w \<noteq> None"
proof -
  define items where "items = fst (rangeKeys w)"
  define w1 where "w1 = snd (rangeKeys w)"
  define n where "n = length items"
  have it: "n = length (cacheKeys w)" "2 \<le> n"
    and w1: "w1 = w\<lparr>mapTick := mapTick w + length (cacheKeys w)\<rparr>"
    using rangeKeys_items [of w] assms(1) by (simp_all add: items_def w1_def n_def)
  define i where "i = randSource w1 (randTick w1) mod n"
  define w2 where "w2 = w1\<lparr>randTick := Suc (randTick w1)\<rparr>"
  have rk: "rangeKeys w = (items, w1)" by (simp add: items_def w1_def)
  have ri: "randIntn n w1 = (Return i, w2)"
    using it(2) by (simp add: randIntn_def i_def w2_def)
  have "randSource w2 (randTick w2 + k) mod n \<noteq> i"
    using assms(2) by (simp add: w2_def w1 i_def it(1))
  with drawSecondIndex_returns [of n w2 k i] it(2)
  obtain y where y: "drawSecondIndex n i i w2 = Some y" by auto
  have g: "getRandomItems w =
             (case drawSecondIndex n i i w2 of
                None \<Rightarrow> None
              | Some (Crashed c, w3) \<Rightarrow> Some (Crashed c, w3)
              | Some (Return secondIndex, w3) \<Rightarrow>
                  if i < length items \<and> secondIndex < length items
                  then Some (Return (Inr (items ! i, items ! secondIndex)), w3)
                  else Some (Crashed (Panic PanicIndexOutOfRange), w3))"
    using it(2) by (simp add: getRandomItems_def rk ri n_def [symmetric])
  show ?thesis
    unfolding g y by (cases y; cases "fst y") auto
qed






section \<open>The Exploration Loop\<close>

lemma getRandomItems_frame:
  assumes "getRandomItems w = Some (r, w')"
  shows "\<exists>m t. w' = w\<lparr>mapTick := m, randTick := t\<rparr>"
proof (cases "length (cacheKeys w) < 2")
  case True
  with assms have "w' = w\<lparr>mapTick := mapTick w + length (cacheKeys w)\<rparr>"
    by (simp add: getRandomItems_few)
  then have "w' = w\<lparr>mapTick := mapTick w + length (cacheKeys w), randTick := randTick w\<rparr>"
    by simp
  then show ?thesis by blast
next
  case False
  then have "2 \<le> length (cacheKeys w)" by simp
  from getRandomItems_pair [OF this assms] show ?thesis by blast
qed

lemma count_positive:
  "filter (\<lambda>c. pairOf c = p) rows \<noteq> [] \<longleftrightarrow> p \<in> set (map pairOf rows)"
  by (induction rows) auto

lemma combinationExists_value:
  "combinationExists firstItem secondItem w =
     ((if dbFault w (dbTick w) then Inl ErrStoreIO
       else case combinationsTable w of
              None \<Rightarrow> Inl ErrNoSuchTable
            | Some rows \<Rightarrow> Inr ((firstItem, secondItem) \<in> set (map pairOf rows))),
      w\<lparr>dbTick := Suc (dbTick w)\<rparr>)"
  by (simp add: combinationExists_def queryCountCombinations_def sendStatement_def Let_def
        count_positive del: set_map split: option.splits)

text \<open>
  Claim C3. In an iteration of the loop in which \<open>getRandomItems\<close> draws a pair and
  \<open>combinationExists\<close> answers true for it, the pair has a row in \<open>combinations\<close>. Up
  to the check the world has changed in nothing but the counters of the random source, of
  the map iteration and of the statements sent to the store (one more): no request was
  sent, no table was written, the cache is as it was. After the check the iteration does
  nothing but sleep 50 ms: the loop goes on from that world with \<open>createdCombinations\<close>
  as it was and \<open>attempts\<close> one higher. So, when this attempt is the last one allowed,
  the loop returns with \<open>createdCombinations\<close> as it was and \<open>attempts + 1\<close>, in
  the world after the check followed by the sleep and the closing log line.
\<close>

theorem exploreLoop_explored_pair:
  assumes "createdCombinations < maxCombinations" and "attempts < maxAttempts"
    and "getRandomItems w = Some (Return (Inr (firstItem, secondItem)), w1)"
    and "combinationExists firstItem secondItem w1 = (Inr True, w2)"
  shows "exploreLoop maxCombinations maxAttempts createdCombinations attempts w =
           exploreLoop maxCombinations maxAttempts createdCombinations (attempts + 1)
             (timeSleep (timeMillisecond * 50) w2) \<and>
         exploreLoop maxCombinations (attempts + 1) createdCombinations attempts w =
           Some (Return (Exhausted, createdCombinations, attempts + 1),
                 logrus InfoLevel
                   [ArgStr ''Finished creating combinations. Total created: '', ArgInt createdCombinations,
                    ArgStr '', Total attempts: '', ArgInt (attempts + 1)]
                   (timeSleep (timeMillisecond * 50) w2)) \<and>
         (firstItem, secondItem) \<in> set (map pairOf (combinationRows w)) \<and>
         requests w2 = requests w \<and> writes w2 = writes w \<and>
         itemsTable w2 = itemsTable w \<and> combinationsTable w2 = combinationsTable w \<and>
         localItemsCache w2 = localItemsCache w \<and> sleeps w2 = sleeps w \<and>
         (\<exists>m t. w2 = w\<lparr>mapTick := m, randTick := t, dbTick := Suc (dbTick w)\<rparr>)"
proof -
  from getRandomItems_frame [OF assms(3)] obtain m t where w1: "w1 = w\<lparr>mapTick := m, randTick := t\<rparr>"
    by blast
  from assms(4) have w2: "w2 = w1\<lparr>dbTick := Suc (dbTick w1)\<rparr>"
    and ex: "(if dbFault w1 (dbTick w1) then Inl ErrStoreIO
       else case combinationsTable w1 of
              None \<Rightarrow> Inl ErrNoSuchTable
            | Some rows \<Rightarrow> Inr ((firstItem, secondItem) \<in> set (map pairOf rows))) = Inr True"
    by (simp_all add: combinationExists_value)
  from ex have "(firstItem, secondItem) \<in> set (map pairOf (combinationRows w1))"
    by (auto simp: combinationRows_def split: if_splits option.splits)
  then have row: "(firstItem, secondItem) \<in> set (map pairOf (combinationRows w))"
    by (simp add: w1 combinationRows_def)
  have step: "exploreLoop maxCombinations maxAttempts createdCombinations attempts w =
           exploreLoop maxCombinations maxAttempts createdCombinations (attempts + 1)
             (timeSleep (timeMillisecond * 50) w2)"
    by (subst exploreLoop.simps) (simp only: assms combineIfNew_def simp_thms if_True if_False
          option.case prod.case outcome.case sum.case)
  have lt: "attempts < attempts + 1" by simp
  have "exploreLoop maxCombinations (attempts + 1) createdCombinations attempts w =
          exploreLoop maxCombinations (attempts + 1) createdCombinations (attempts + 1)
            (timeSleep (timeMillisecond * 50) w2)"
    by (subst exploreLoop.simps) (simp only: assms(1,3,4) lt combineIfNew_def simp_thms if_True if_False
          option.case prod.case outcome.case sum.case)
  also have "\<dots> = Some (Return (Exhausted, createdCombinations, attempts + 1),
                 logrus InfoLevel
                   [ArgStr ''Finished creating combinations. Total created: '', ArgInt createdCombinations,
                    ArgStr '', Total attempts: '', ArgInt (attempts + 1)]
                   (timeSleep (timeMillisecond * 50) w2))"
    by (subst exploreLoop.simps) simp
  finally have final: "exploreLoop maxCombinations (attempts + 1) createdCombinations attempts w =
           Some (Return (Exhausted, createdCombinations, attempts + 1),
                 logrus InfoLevel
                   [ArgStr ''Finished creating combinations. Total created: '', ArgInt createdCombinations,
                    ArgStr '', Total attempts: '', ArgInt (attempts + 1)]
                   (timeSleep (timeMillisecond * 50) w2))" .
  have eq: "w2 = w\<lparr>mapTick := m, randTick := t, dbTick := Suc (dbTick w)\<rparr>"
    unfolding w2 w1 by simp
  have fr: "requests w2 = requests w" "writes w2 = writes w" "itemsTable w2 = itemsTable w"
    "combinationsTable w2 = combinationsTable w" "localItemsCache w2 = localItemsCache w"
    "sleeps w2 = sleeps w"
    unfolding eq by simp_all
  from eq have "\<exists>m t. w2 = w\<lparr>mapTick := m, randTick := t, dbTick := Suc (dbTick w)\<rparr>"
    by (intro exI)
  with step final row fr show ?thesis
    by (intro conjI)
qed

theorem exploreLoop_explored_pair_witness:
  "\<exists>firstItem secondItem w1 w2.
     getRandomItems exploredWorld = Some (Return (Inr (firstItem, secondItem)), w1) \<and>
     combinationExists firstItem secondItem w1 = (Inr True, w2) \<and>
     exploreLoop 5 5 0 0 exploredWorld = exploreLoop 5 5 0 (0 + 1) (timeSleep (timeMillisecond * 50) w2) \<and>
     map_option fst (exploreLoop 5 (0 + 1) 0 0 exploredWorld) = Some (Return (Exhausted, 0, 0 + 1)) \<and>
     map_option (requests \<circ> snd) (exploreLoop 5 (0 + 1) 0 0 exploredWorld) = Some [] \<and>
     map_option (writes \<circ> snd) (exploreLoop 5 (0 + 1) 0 0 exploredWorld) = Some [] \<and>
     map_option (sleeps \<circ> snd) (exploreLoop 5 (0 + 1) 0 0 exploredWorld) = Some [timeMillisecond * 50] \<and>
     requests w2 = [] \<and> writes w2 = [] \<and>
     combinationsTable w2 = Some [(1, ''Water'', ''Fire'', ''Fire''), (2, ''Fire'', ''Water'', ''Water'')]"
proof -
  have k: "2 \<le> length (cacheKeys exploredWorld)"
    by (simp add: cacheKeys_def exploredWorld_def)
  have "randSource exploredWorld (Suc (randTick exploredWorld + 0)) mod length (cacheKeys exploredWorld) \<noteq>
        randSource exploredWorld (randTick exploredWorld) mod length (cacheKeys exploredWorld)"
    by (simp add: cacheKeys_def exploredWorld_def seededWorld_def countingSource_def)
  from getRandomItems_returns [OF k this] obtain r w1 where g: "getRandomItems exploredWorld = Some (r, w1)"
    by (cases "getRandomItems exploredWorld") auto
  from getRandomItems_pair [OF k g] obtain a b m t where r: "r = Return (Inr (a, b))" and ab: "a \<noteq> b"
    "a \<in> set (cacheKeys exploredWorld)" "b \<in> set (cacheKeys exploredWorld)"
    and w1: "w1 = exploredWorld\<lparr>mapTick := m, randTick := t\<rparr>"
    by blast
  from ab have "(a, b) = (''Water'', ''Fire'') \<or> (a, b) = (''Fire'', ''Water'')"
    by (auto simp: cacheKeys_def exploredWorld_def)
  then have c: "combinationExists a b w1 = (Inr True, w1\<lparr>dbTick := Suc (dbTick w1)\<rparr>)"
    by (auto simp: combinationExists_value w1 exploredWorld_def seededWorld_def neverFaults_def pairOf_def)
  from exploreLoop_explored_pair [of 0 5 0 5 exploredWorld a b w1, OF _ _ g [unfolded r] c]
  have "exploreLoop 5 5 0 0 exploredWorld =
          exploreLoop 5 5 0 (0 + 1) (timeSleep (timeMillisecond * 50) (w1\<lparr>dbTick := Suc (dbTick w1)\<rparr>))"
    and "exploreLoop 5 (0 + 1) 0 0 exploredWorld =
           Some (Return (Exhausted, 0, 0 + 1),
                 logrus InfoLevel
                   [ArgStr ''Finished creating combinations. Total created: '', ArgInt 0,
                    ArgStr '', Total attempts: '', ArgInt (0 + 1)]
                   (timeSleep (timeMillisecond * 50) (w1\<lparr>dbTick := Suc (dbTick w1)\<rparr>)))"
    and "requests (w1\<lparr>dbTick := Suc (dbTick w1)\<rparr>) = requests exploredWorld"
    and "writes (w1\<lparr>dbTick := Suc (dbTick w1)\<rparr>) = writes exploredWorld"
    and "combinationsTable (w1\<lparr>dbTick := Suc (dbTick w1)\<rparr>) = combinationsTable exploredWorld"
    by simp_all
  with g r c show ?thesis
    by (simp add: exploredWorld_def seededWorld_def logrus_def timeSleep_def w1)
qed

section \<open>How the loop ends\<close>

lemma combineIfNew_created:
  assumes "combineIfNew exists firstItem secondItem createdCombinations w = Some (Return created, w')"
  shows "created = createdCombinations \<or> created = createdCombinations + 1"
  using assms
  by (auto simp: combineIfNew_def split: if_splits option.splits prod.splits outcome.splits)

lemma exploreLoop_ends:
  assumes "exploreLoop maxCombinations maxAttempts createdCombinations attempts w =
             Some (Return (way, created, tried), w')"
  shows "createdCombinations \<le> created \<and> attempts \<le> tried \<and>
         created - createdCombinations \<le> tried - attempts \<and>
         (createdCombinations \<le> maxCombinations \<longrightarrow> created \<le> maxCombinations) \<and>
         (attempts \<le> maxAttempts \<longrightarrow> tried \<le> maxAttempts) \<and>
         (way = Exhausted \<longrightarrow>
            \<not> (created < maxCombinations \<and> tried < maxAttempts) \<and>
            last (logLines w') =
              (InfoLevel, [ArgStr ''Finished creating combinations. Total created: '', ArgInt created,
                           ArgStr '', Total attempts: '', ArgInt tried])) \<and>
         (way = Aborted \<longrightarrow>
            created < maxCombinations \<and> tried < maxAttempts \<and>
            (\<exists>err. last (logLines w') = (ErrorLevel, [ArgStr ''Error getting random items: '', ArgErr err]) \<or>
                   last (logLines w') =
                     (ErrorLevel, [ArgStr ''Error checking if combination exists: '', ArgErr err])))"
  using assms
proof (induction maxCombinations maxAttempts createdCombinations attempts w rule: exploreLoop.induct)
  case (1 maxCombinations maxAttempts createdCombinations attempts w)
  show ?case
  proof (cases "createdCombinations < maxCombinations \<and> attempts < maxAttempts")
    case False
    with "1.prems" have "way = Exhausted" "created = createdCombinations" "tried = attempts"
      and "w' = logrus InfoLevel
                   [ArgStr ''Finished creating combinations. Total created: '', ArgInt createdCombinations,
                    ArgStr '', Total attempts: '', ArgInt attempts] w"
      by (auto simp: exploreLoop.simps [of maxCombinations maxAttempts createdCombinations attempts w])
    with False show ?thesis
      by (simp add: logrus_def)
  next
    case True
    note run = "1.prems" [unfolded exploreLoop.simps [of maxCombinations maxAttempts createdCombinations attempts w]]
    from run True obtain g w1 where g: "getRandomItems w = Some (g, w1)"
      by (cases "getRandomItems w") auto
    show ?thesis
    proof (cases g)
      case (Crashed c)
      with run True g show ?thesis by simp
    next
      case (Return res)
      show ?thesis
      proof (cases res)
        case (Inl err)
        with run True g Return have "way = Aborted" "created = createdCombinations" "tried = attempts"
          and "w' = logrus ErrorLevel [ArgStr ''Error getting random items: '', ArgErr err] w1"
          by auto
        with True show ?thesis
          by (simp add: logrus_def)
      next
        case (Inr pair)
        obtain firstItem secondItem where pair: "pair = (firstItem, secondItem)"
          by (cases pair)
        obtain e w2 where ce: "combinationExists firstItem secondItem w1 = (e, w2)"
          by (cases "combinationExists firstItem secondItem w1")
        show ?thesis
        proof (cases e)
          case (Inl err)
          with run True g Return Inr pair ce have "way = Aborted" "created = createdCombinations"
            "tried = attempts"
            and "w' = logrus ErrorLevel [ArgStr ''Error checking if combination exists: '', ArgErr err] w2"
            by auto
          with True show ?thesis
            by (simp add: logrus_def)
        next
          case exists: (Inr exists)
          from run True g Return Inr pair ce exists obtain k w3 where
            ci: "combineIfNew exists firstItem secondItem createdCombinations w2 = Some (k, w3)"
            by (cases "combineIfNew exists firstItem secondItem createdCombinations w2") auto
          show ?thesis
          proof (cases k)
            case (Crashed c)
            with run True g Return Inr pair ce exists ci show ?thesis by simp
          next
            case created': (Return created')
            from run True g Return Inr pair ce exists ci created'
            have rec: "exploreLoop maxCombinations maxAttempts created' (attempts + 1)
                         (timeSleep (timeMillisecond * 50) w3) = Some (Return (way, created, tried), w')"
              by simp
            from combineIfNew_created [OF ci [unfolded created']]
            have c: "created' = createdCombinations \<or> created' = createdCombinations + 1" .
            from "1.IH" [OF True g refl Return Inr pair [symmetric] ce [symmetric] exists
                            ci refl created' rec] True c
            show ?thesis
              by auto
          qed
        qed
      qed
    qed
  qed
qed

lemma exploreLoop_few_keys:
  assumes "createdCombinations < maxCombinations" and "attempts < maxAttempts"
    and "length (cacheKeys w) < 2"
  shows "exploreLoop maxCombinations maxAttempts createdCombinations attempts w =
           Some (Return (Aborted, createdCombinations, attempts),
                 logrus ErrorLevel [ArgStr ''Error getting random items: '', ArgErr ErrNotEnoughItems]
                   (w\<lparr>mapTick := mapTick w + length (cacheKeys w)\<rparr>))"
  by (subst exploreLoop.simps)
     (simp only: assms getRandomItems_few simp_thms if_True option.case prod.case outcome.case sum.case)

lemma exploreLoop_check_fails:
  assumes "createdCombinations < maxCombinations" and "attempts < maxAttempts"
    and "getRandomItems w = Some (Return (Inr (firstItem, secondItem)), w1)"
    and "combinationExists firstItem secondItem w1 = (Inl err, w2)"
  shows "exploreLoop maxCombinations maxAttempts createdCombinations attempts w =
           Some (Return (Aborted, createdCombinations, attempts),
                 logrus ErrorLevel [ArgStr ''Error checking if combination exists: '', ArgErr err] w2)"
  by (subst exploreLoop.simps)
     (simp only: assms simp_thms if_True option.case prod.case outcome.case sum.case)

text \<open>
  Claim C8, as the code has it. When the cache has fewer than two keys, or when the
  existence check returns a store error, the loop returns normally by its early
  \<open>return\<close>: no fatal exit, no panic, the counters as they were at the start of the
  iteration. The line it logs then is the Error line naming the failure, and it is the
  last line of the run. That line holds no counter. The Info line with the final counts
  of created combinations and of attempts is the last line of exactly the runs that end
  because the loop condition has become false.
\<close>

theorem exploreLoop_abort_logs_error:
  "(createdCombinations < maxCombinations \<and> attempts < maxAttempts \<and> length (cacheKeys w) < 2 \<longrightarrow>
      (\<exists>w'. exploreLoop maxCombinations maxAttempts createdCombinations attempts w =
               Some (Return (Aborted, createdCombinations, attempts), w') \<and>
            logLines w' = logLines w @
              [(ErrorLevel, [ArgStr ''Error getting random items: '', ArgErr ErrNotEnoughItems])])) \<and>
   (createdCombinations < maxCombinations \<and> attempts < maxAttempts \<and>
    getRandomItems w = Some (Return (Inr (firstItem, secondItem)), w1) \<and>
    combinationExists firstItem secondItem w1 = (Inl err, w2) \<longrightarrow>
      (\<exists>w'. exploreLoop maxCombinations maxAttempts createdCombinations attempts w =
               Some (Return (Aborted, createdCombinations, attempts), w') \<and>
            logLines w' = logLines w @
              [(ErrorLevel, [ArgStr ''Error checking if combination exists: '', ArgErr err])])) \<and>
   (\<forall>way created tried w'.
      exploreLoop maxCombinations maxAttempts createdCombinations attempts w =
        Some (Return (way, created, tried), w') \<longrightarrow>
      (way = Aborted \<longrightarrow>
         (\<exists>e. last (logLines w') = (ErrorLevel, [ArgStr ''Error getting random items: '', ArgErr e]) \<or>
              last (logLines w') = (ErrorLevel, [ArgStr ''Error checking if combination exists: '', ArgErr e])) \<and>
         \<not> reportsCounts created tried (last (logLines w'))) \<and>
      (way = Exhausted \<longrightarrow>
         last (logLines w') =
           (InfoLevel, [ArgStr ''Finished creating combinations. Total created: '', ArgInt created,
                        ArgStr '', Total attempts: '', ArgInt tried]) \<and>
         reportsCounts created tried (last (logLines w'))))"
proof (intro conjI impI allI)
  assume a: "createdCombinations < maxCombinations \<and> attempts < maxAttempts \<and> length (cacheKeys w) < 2"
  let ?w' = "logrus ErrorLevel [ArgStr ''Error getting random items: '', ArgErr ErrNotEnoughItems]
               (w\<lparr>mapTick := mapTick w + length (cacheKeys w)\<rparr>)"
  from a have "exploreLoop maxCombinations maxAttempts createdCombinations attempts w =
                 Some (Return (Aborted, createdCombinations, attempts), ?w')"
    by (simp add: exploreLoop_few_keys)
  moreover have "logLines ?w' = logLines w @
              [(ErrorLevel, [ArgStr ''Error getting random items: '', ArgErr ErrNotEnoughItems])]"
    by (simp add: logrus_def)
  ultimately show "\<exists>w'. exploreLoop maxCombinations maxAttempts createdCombinations attempts w =
               Some (Return (Aborted, createdCombinations, attempts), w') \<and>
            logLines w' = logLines w @
              [(ErrorLevel, [ArgStr ''Error getting random items: '', ArgErr ErrNotEnoughItems])]"
    by blast
next
  assume a: "createdCombinations < maxCombinations \<and> attempts < maxAttempts \<and>
    getRandomItems w = Some (Return (Inr (firstItem, secondItem)), w1) \<and>
    combinationExists firstItem secondItem w1 = (Inl err, w2)"
  let ?w' = "logrus ErrorLevel [ArgStr ''Error checking if combination exists: '', ArgErr err] w2"
  from a have "exploreLoop maxCombinations maxAttempts createdCombinations attempts w =
                 Some (Return (Aborted, createdCombinations, attempts), ?w')"
    by (simp add: exploreLoop_check_fails)
  moreover from a obtain m t where "w1 = w\<lparr>mapTick := m, randTick := t\<rparr>"
    using getRandomItems_frame by blast
  moreover from a have "w2 = w1\<lparr>dbTick := Suc (dbTick w1)\<rparr>"
    by (simp add: combinationExists_value)
  ultimately have "exploreLoop maxCombinations maxAttempts createdCombinations attempts w =
                 Some (Return (Aborted, createdCombinations, attempts), ?w') \<and>
     logLines ?w' = logLines w @
              [(ErrorLevel, [ArgStr ''Error checking if combination exists: '', ArgErr err])]"
    by (simp add: logrus_def)
  then show "\<exists>w'. exploreLoop maxCombinations maxAttempts createdCombinations attempts w =
               Some (Return (Aborted, createdCombinations, attempts), w') \<and>
            logLines w' = logLines w @
              [(ErrorLevel, [ArgStr ''Error checking if combination exists: '', ArgErr err])]"
    by blast
next
  fix way created tried w'
  assume run: "exploreLoop maxCombinations maxAttempts createdCombinations attempts w =
        Some (Return (way, created, tried), w')"
  note e = exploreLoop_ends [OF run]
  {
    assume "way = Aborted"
    with e show "\<exists>e. last (logLines w') = (ErrorLevel, [ArgStr ''Error getting random items: '', ArgErr e]) \<or>
              last (logLines w') = (ErrorLevel, [ArgStr ''Error checking if combination exists: '', ArgErr e])"
      by blast
    then show "\<not> reportsCounts created tried (last (logLines w'))"
      by (auto simp: reportsCounts_def)
  }
  {
    assume "way = Exhausted"
    with e show l: "last (logLines w') =
           (InfoLevel, [ArgStr ''Finished creating combinations. Total created: '', ArgInt created,
                        ArgStr '', Total attempts: '', ArgInt tried])"
      by blast
    show "reportsCounts created tried (last (logLines w'))"
      unfolding l by (simp add: reportsCounts_def)
  }
qed

theorem exploreLoop_abort_logs_error_witness:
  "length (cacheKeys loneWorld) < 2 \<and>
   (\<exists>w'. exploreLoop 1 1 0 0 loneWorld = Some (Return (Aborted, 0, 0), w') \<and>
         logLines w' = [(ErrorLevel, [ArgStr ''Error getting random items: '', ArgErr ErrNotEnoughItems])]) \<and>
   (\<exists>w'. exploreLoop 1 1 0 0 brokenStoreWorld = Some (Return (Aborted, 0, 0), w') \<and>
         logLines w' = [(ErrorLevel, [ArgStr ''Error checking if combination exists: '',
                                      ArgErr ErrNoSuchTable])])"
proof -
  have l: "length (cacheKeys loneWorld) < 2" "logLines loneWorld = []"
    by (simp_all add: cacheKeys_def loneWorld_def seededWorld_def)
  have k: "2 \<le> length (cacheKeys brokenStoreWorld)"
    by (simp add: cacheKeys_def brokenStoreWorld_def seededWorld_def initialItems_def)
  have "randSource brokenStoreWorld (Suc (randTick brokenStoreWorld + 0))
          mod length (cacheKeys brokenStoreWorld) \<noteq>
        randSource brokenStoreWorld (randTick brokenStoreWorld) mod length (cacheKeys brokenStoreWorld)"
    by (simp add: cacheKeys_def brokenStoreWorld_def seededWorld_def initialItems_def countingSource_def)
  from getRandomItems_returns [OF k this] obtain r w1 where
    g: "getRandomItems brokenStoreWorld = Some (r, w1)"
    by (cases "getRandomItems brokenStoreWorld") auto
  from getRandomItems_pair [OF k g] obtain a b m t where r: "r = Return (Inr (a, b))"
    and w1: "w1 = brokenStoreWorld\<lparr>mapTick := m, randTick := t\<rparr>"
    by blast
  have c: "combinationExists a b w1 = (Inl ErrNoSuchTable, w1\<lparr>dbTick := Suc (dbTick w1)\<rparr>)"
    by (simp add: combinationExists_value w1 brokenStoreWorld_def seededWorld_def neverFaults_def)
  have b: "logLines brokenStoreWorld = []"
    by (simp add: brokenStoreWorld_def seededWorld_def)
  from exploreLoop_abort_logs_error [of 0 1 0 1 loneWorld] l
  have one: "\<exists>w'. exploreLoop 1 1 0 0 loneWorld = Some (Return (Aborted, 0, 0), w') \<and>
         logLines w' = [(ErrorLevel, [ArgStr ''Error getting random items: '', ArgErr ErrNotEnoughItems])]"
    by simp
  from exploreLoop_abort_logs_error [of 0 1 0 1 brokenStoreWorld a b w1 ErrNoSuchTable
         "w1\<lparr>dbTick := Suc (dbTick w1)\<rparr>"] g [unfolded r] c b
  have two: "\<exists>w'. exploreLoop 1 1 0 0 brokenStoreWorld = Some (Return (Aborted, 0, 0), w') \<and>
         logLines w' = [(ErrorLevel, [ArgStr ''Error checking if combination exists: '',
                                      ArgErr ErrNoSuchTable])]"
    by simp
  from l(1) one two show ?thesis by (intro conjI)
qed

text \<open>
  Claim C8 as it is written says that a run that is aborted leaves a log line with the
  final counts of successes and attempts. With the one key Water in the cache the run
  is aborted and its only line holds no count.
\<close>

theorem exploreCombinations_abort_no_counts:
  "map_option fst (exploreCombinations 1 1 loneWorld) = Some (Return (Aborted, 0, 0)) \<and>
   map_option (logLines \<circ> snd) (exploreCombinations 1 1 loneWorld) =
     Some [(ErrorLevel, [ArgStr ''Error getting random items: '', ArgErr ErrNotEnoughItems])] \<and>
   \<not> reportsCounts 0 0 (ErrorLevel, [ArgStr ''Error getting random items: '', ArgErr ErrNotEnoughItems])"
proof -
  have l: "length (cacheKeys loneWorld) < 2" "logLines loneWorld = []"
    by (simp_all add: cacheKeys_def loneWorld_def seededWorld_def)
  have "exploreCombinations 1 1 loneWorld =
          Some (Return (Aborted, 0, 0),
                logrus ErrorLevel [ArgStr ''Error getting random items: '', ArgErr ErrNotEnoughItems]
                  (loneWorld\<lparr>mapTick := mapTick loneWorld + length (cacheKeys loneWorld)\<rparr>))"
    unfolding exploreCombinations_def by (rule exploreLoop_few_keys) (simp_all add: l)
  then show ?thesis
    by (simp add: logrus_def l reportsCounts_def)
qed

section \<open>The attempt ceiling\<close>

lemma explored_iteration:
  assumes k: "2 \<le> length (cacheKeys w)" and e: "everyPairExplored w"
    and nf: "\<not> dbFault w (dbTick w)" and fair: "fairSource (randSource w) (length (cacheKeys w))"
  shows "\<exists>firstItem secondItem m t.
           getRandomItems w = Some (Return (Inr (firstItem, secondItem)), w\<lparr>mapTick := m, randTick := t\<rparr>) \<and>
           combinationExists firstItem secondItem (w\<lparr>mapTick := m, randTick := t\<rparr>) =
             (Inr True, w\<lparr>mapTick := m, randTick := t, dbTick := Suc (dbTick w)\<rparr>)"
proof -
  from fair obtain j where "randSource w (Suc (randTick w + j)) mod length (cacheKeys w) \<noteq>
                            randSource w (randTick w) mod length (cacheKeys w)"
    unfolding fairSource_def by blast
  from getRandomItems_returns [OF k this] obtain r w1 where g: "getRandomItems w = Some (r, w1)"
    by (cases "getRandomItems w") auto
  from getRandomItems_pair [OF k g] obtain a b m t where r: "r = Return (Inr (a, b))"
    and ab: "a \<noteq> b" "a \<in> set (cacheKeys w)" "b \<in> set (cacheKeys w)"
    and w1: "w1 = w\<lparr>mapTick := m, randTick := t\<rparr>"
    by blast
  from e ab have row: "(a, b) \<in> set (map pairOf (combinationRows w))"
    unfolding everyPairExplored_def list_all_iff by blast
  then obtain rows where rows: "combinationsTable w = Some rows" "(a, b) \<in> set (map pairOf rows)"
    by (cases "combinationsTable w") (simp_all add: combinationRows_def)
  have "combinationExists a b (w\<lparr>mapTick := m, randTick := t\<rparr>) =
          (Inr True, w\<lparr>mapTick := m, randTick := t, dbTick := Suc (dbTick w)\<rparr>)"
    unfolding combinationExists_value using nf rows by simp
  with g r w1 show ?thesis by blast
qed

lemma exploreLoop_ceiling:
  assumes "nat (maxAttempts - attempts) = n" and "attempts \<le> maxAttempts"
    and "createdCombinations < maxCombinations"
    and "2 \<le> length (cacheKeys w)" and "everyPairExplored w"
    and "\<forall>t\<ge>dbTick w. \<not> dbFault w t" and "fairSource (randSource w) (length (cacheKeys w))"
  shows "\<exists>w'. exploreLoop maxCombinations maxAttempts createdCombinations attempts w =
                 Some (Return (Exhausted, createdCombinations, maxAttempts), w') \<and>
              requests w' = requests w \<and> writes w' = writes w \<and>
              itemsTable w' = itemsTable w \<and> combinationsTable w' = combinationsTable w \<and>
              localItemsCache w' = localItemsCache w \<and>
              length (sleeps w') = length (sleeps w) + n \<and> dbTick w' = dbTick w + n"
  using assms
proof (induction n arbitrary: attempts w)
  case 0
  then have "attempts = maxAttempts" by simp
  then have "exploreLoop maxCombinations maxAttempts createdCombinations attempts w =
          Some (Return (Exhausted, createdCombinations, maxAttempts),
                logrus InfoLevel
                   [ArgStr ''Finished creating combinations. Total created: '', ArgInt createdCombinations,
                    ArgStr '', Total attempts: '', ArgInt attempts] w)"
    by (subst exploreLoop.simps) simp
  then show ?case
    by (simp add: logrus_def)
next
  case (Suc n)
  then have lt: "attempts < maxAttempts" by simp
  have nf: "\<not> dbFault w (dbTick w)" using Suc.prems(6) by simp
  from explored_iteration [OF Suc.prems(4,5) nf Suc.prems(7)]
  obtain firstItem secondItem m t where
    g: "getRandomItems w = Some (Return (Inr (firstItem, secondItem)), w\<lparr>mapTick := m, randTick := t\<rparr>)"
    and c: "combinationExists firstItem secondItem (w\<lparr>mapTick := m, randTick := t\<rparr>) =
             (Inr True, w\<lparr>mapTick := m, randTick := t, dbTick := Suc (dbTick w)\<rparr>)"
    by blast
  define w2 where "w2 = timeSleep (timeMillisecond * 50) (w\<lparr>mapTick := m, randTick := t, dbTick := Suc (dbTick w)\<rparr>)"
  have step: "exploreLoop maxCombinations maxAttempts createdCombinations attempts w =
              exploreLoop maxCombinations maxAttempts createdCombinations (attempts + 1) w2"
    unfolding w2_def
    by (subst exploreLoop.simps)
       (simp only: Suc.prems(3) lt g c combineIfNew_def simp_thms if_True if_False
          option.case prod.case outcome.case sum.case)
  have f: "requests w2 = requests w" "writes w2 = writes w" "itemsTable w2 = itemsTable w"
    "combinationsTable w2 = combinationsTable w" "localItemsCache w2 = localItemsCache w"
    "length (sleeps w2) = Suc (length (sleeps w))" "dbTick w2 = Suc (dbTick w)"
    "dbFault w2 = dbFault w" "randSource w2 = randSource w"
    by (simp_all add: w2_def timeSleep_def)
  have h: "nat (maxAttempts - (attempts + 1)) = n" "attempts + 1 \<le> maxAttempts"
    "2 \<le> length (cacheKeys w2)" "everyPairExplored w2"
    "\<forall>t\<ge>dbTick w2. \<not> dbFault w2 t" "fairSource (randSource w2) (length (cacheKeys w2))"
    using Suc.prems
    by (simp_all add: f cacheKeys_def everyPairExplored_def combinationRows_def)
  from Suc.IH [OF h(1,2) Suc.prems(3) h(3-6)] obtain w' where
    "exploreLoop maxCombinations maxAttempts createdCombinations (attempts + 1) w2 =
       Some (Return (Exhausted, createdCombinations, maxAttempts), w')"
    "requests w' = requests w2" "writes w' = writes w2" "itemsTable w' = itemsTable w2"
    "combinationsTable w' = combinationsTable w2" "localItemsCache w' = localItemsCache w2"
    "length (sleeps w') = length (sleeps w2) + n" "dbTick w' = dbTick w2 + n"
    by blast
  then show ?case
    unfolding step f by (intro exI [of _ w']) simp
qed

text \<open>
  Claim C2, as the code has it. With both budgets at least zero, a run of the loop that
  returns has made at most \<open>maxCombinations\<close> successes and at most \<open>maxAttempts\<close>
  attempts, never more successes than attempts; it ends \<open>Exhausted\<close> with one of the
  two counters at its budget, and \<open>Aborted\<close> with both below. With a budget of at least
  one success, at least two keys in the cache, a combination row for every ordered pair
  of two different keys, a store that does not fault and a fair random source, the loop
  returns \<open>Exhausted\<close> with no success and \<open>maxAttempts\<close> attempts, having made
  \<open>maxAttempts\<close> existence checks and pacing sleeps, no request and no write. With a
  budget of successes or of attempts that is zero (or less), the loop makes no iteration:
  it returns at once, both counters zero, having done nothing but log its closing line.
\<close>

theorem exploreCombinations_attempt_ceiling:
  "(0 \<le> maxCombinations \<and> 0 \<le> maxAttempts \<longrightarrow>
      (\<forall>way created tried w'.
         exploreCombinations maxCombinations maxAttempts w = Some (Return (way, created, tried), w') \<longrightarrow>
         0 \<le> created \<and> created \<le> maxCombinations \<and> 0 \<le> tried \<and> tried \<le> maxAttempts \<and>
         created \<le> tried \<and>
         (way = Exhausted \<longrightarrow> created = maxCombinations \<or> tried = maxAttempts) \<and>
         (way = Aborted \<longrightarrow> created < maxCombinations \<and> tried < maxAttempts))) \<and>
   (0 < maxCombinations \<and> 0 \<le> maxAttempts \<and> 2 \<le> length (cacheKeys w) \<and> everyPairExplored w \<and>
    (\<forall>t\<ge>dbTick w. \<not> dbFault w t) \<and> fairSource (randSource w) (length (cacheKeys w)) \<longrightarrow>
      (\<exists>w'. exploreCombinations maxCombinations maxAttempts w =
               Some (Return (Exhausted, 0, maxAttempts), w') \<and>
            requests w' = requests w \<and> writes w' = writes w \<and>
            itemsTable w' = itemsTable w \<and> combinationsTable w' = combinationsTable w \<and>
            length (sleeps w') = length (sleeps w) + nat maxAttempts \<and>
            dbTick w' = dbTick w + nat maxAttempts)) \<and>
   (maxCombinations \<le> 0 \<or> maxAttempts \<le> 0 \<longrightarrow>
      exploreCombinations maxCombinations maxAttempts w =
        Some (Return (Exhausted, 0, 0),
              logrus InfoLevel
                [ArgStr ''Finished creating combinations. Total created: '', ArgInt 0,
                 ArgStr '', Total attempts: '', ArgInt 0] w))"
proof (intro conjI impI allI)
  assume "maxCombinations \<le> 0 \<or> maxAttempts \<le> 0"
  then have c: "(0 < maxCombinations \<and> 0 < maxAttempts) = False" by auto
  show "exploreCombinations maxCombinations maxAttempts w =
        Some (Return (Exhausted, 0, 0),
              logrus InfoLevel
                [ArgStr ''Finished creating combinations. Total created: '', ArgInt 0,
                 ArgStr '', Total attempts: '', ArgInt 0] w)"
    unfolding exploreCombinations_def by (subst exploreLoop.simps) (simp only: c if_False)
next
  fix way created tried w'
  assume b: "0 \<le> maxCombinations \<and> 0 \<le> maxAttempts"
    and run: "exploreCombinations maxCombinations maxAttempts w = Some (Return (way, created, tried), w')"
  from exploreLoop_ends [OF run [unfolded exploreCombinations_def]] b
  have e: "0 \<le> created" "0 \<le> tried" "created - 0 \<le> tried - 0" "created \<le> maxCombinations"
    "tried \<le> maxAttempts" "way = Exhausted \<longrightarrow> \<not> (created < maxCombinations \<and> tried < maxAttempts)"
    "way = Aborted \<longrightarrow> created < maxCombinations \<and> tried < maxAttempts"
    by blast+
  from e show "0 \<le> created" "created \<le> maxCombinations" "0 \<le> tried" "tried \<le> maxAttempts"
    "created \<le> tried" by simp_all
  { assume "way = Exhausted"
    with e show "created = maxCombinations \<or> tried = maxAttempts" by auto }
  { assume "way = Aborted"
    with e show "created < maxCombinations" "tried < maxAttempts" by auto }
next
  assume a: "0 < maxCombinations \<and> 0 \<le> maxAttempts \<and> 2 \<le> length (cacheKeys w) \<and> everyPairExplored w \<and>
    (\<forall>t\<ge>dbTick w. \<not> dbFault w t) \<and> fairSource (randSource w) (length (cacheKeys w))"
  then have "nat (maxAttempts - 0) = nat maxAttempts" "0 \<le> maxAttempts" "0 < maxCombinations"
    "2 \<le> length (cacheKeys w)" "everyPairExplored w" "\<forall>t\<ge>dbTick w. \<not> dbFault w t"
    "fairSource (randSource w) (length (cacheKeys w))"
    by simp_all
  from exploreLoop_ceiling [OF this]
  show "\<exists>w'. exploreCombinations maxCombinations maxAttempts w =
               Some (Return (Exhausted, 0, maxAttempts), w') \<and>
            requests w' = requests w \<and> writes w' = writes w \<and>
            itemsTable w' = itemsTable w \<and> combinationsTable w' = combinationsTable w \<and>
            length (sleeps w') = length (sleeps w) + nat maxAttempts \<and>
            dbTick w' = dbTick w + nat maxAttempts"
    unfolding exploreCombinations_def by blast
qed

theorem exploreCombinations_attempt_ceiling_witness:
  "2 \<le> length (cacheKeys exploredWorld) \<and> everyPairExplored exploredWorld \<and>
   (\<exists>w'. exploreCombinations 1000000 3 exploredWorld = Some (Return (Exhausted, 0, 3), w') \<and>
         requests w' = [] \<and> writes w' = [] \<and> length (sleeps w') = 3 \<and> dbTick w' = 3)"
proof -
  have k: "2 \<le> length (cacheKeys exploredWorld)" "length (cacheKeys exploredWorld) = 2"
    by (simp_all add: cacheKeys_def exploredWorld_def)
  have e: "everyPairExplored exploredWorld"
    by (simp add: everyPairExplored_def cacheKeys_def combinationRows_def exploredWorld_def pairOf_def)
  have nf: "\<forall>t\<ge>dbTick exploredWorld. \<not> dbFault exploredWorld t"
    by (simp add: exploredWorld_def seededWorld_def neverFaults_def)
  have "Suc (t + 0) mod 2 \<noteq> t mod 2" for t :: nat
    by presburger
  then have fair: "fairSource (randSource exploredWorld) (length (cacheKeys exploredWorld))"
    unfolding fairSource_def k(2)
    by (simp add: exploredWorld_def seededWorld_def countingSource_def) presburger
  have z: "requests exploredWorld = []" "writes exploredWorld = []" "sleeps exploredWorld = []"
    "dbTick exploredWorld = 0"
    by (simp_all add: exploredWorld_def seededWorld_def)
  from exploreCombinations_attempt_ceiling [of 1000000 3 exploredWorld] k(1) e nf fair
  obtain w' where "exploreCombinations 1000000 3 exploredWorld = Some (Return (Exhausted, 0, 3), w')"
    "requests w' = requests exploredWorld" "writes w' = writes exploredWorld"
    "length (sleeps w') = length (sleeps exploredWorld) + nat 3"
    "dbTick w' = dbTick exploredWorld + nat 3"
    by auto
  then have "exploreCombinations 1000000 3 exploredWorld = Some (Return (Exhausted, 0, 3), w') \<and>
         requests w' = [] \<and> writes w' = [] \<and> length (sleeps w') = 3 \<and> dbTick w' = 3"
    by (simp add: z)
  with k(1) e show ?thesis by blast
qed

text \<open>
  Claim C2 as it is written lets the budget of successes be zero. The loop then makes no
  iteration at all, whatever the budget of attempts: here one attempt is allowed and
  none is made, on a store where every pair that can be drawn has its row.
\<close>

theorem exploreCombinations_zero_successes:
  "everyPairExplored exploredWorld \<and>
   map_option fst (exploreCombinations 0 1 exploredWorld) = Some (Return (Exhausted, 0, 0)) \<and>
   map_option fst (exploreCombinations 0 1 exploredWorld) \<noteq> Some (Return (Exhausted, 0, 1)) \<and>
   map_option (sleeps \<circ> snd) (exploreCombinations 0 1 exploredWorld) = Some []"
proof -
  have e: "everyPairExplored exploredWorld"
    by (simp add: everyPairExplored_def cacheKeys_def combinationRows_def exploredWorld_def pairOf_def)
  have "exploreCombinations 0 1 exploredWorld =
          Some (Return (Exhausted, 0, 0),
                logrus InfoLevel
                   [ArgStr ''Finished creating combinations. Total created: '', ArgInt 0,
                    ArgStr '', Total attempts: '', ArgInt 0] exploredWorld)"
    unfolding exploreCombinations_def by (subst exploreLoop.simps) simp
  with e show ?thesis
    by (simp add: logrus_def exploredWorld_def seededWorld_def)
qed

end
